theory Spec2Isabelle
  imports Main "HOL-Library.Word" "HOL-Library.Char_ord" "HOL-Library.List_Lexorder"
    "HOL-Library.Multiset"
begin

section \<open>Common data: byte strings and Python exceptions\<close>

type_synonym bytes = "8 word list"

text \<open>The exceptions the two modules can end with. \<open>ValueError\<close> carries the message
  of the \<^verbatim>\<open>raise ValueError("...")\<close> that produced it.\<close>

datatype error =
    ValueError string
  | KeyError
  | IndexError
  | TypeError
  | AttributeError
  | OverflowError
  | UnboundLocalError

section \<open>key.py\<close>

subsection \<open>String formatting with \<^verbatim>\<open>%d\<close>\<close>

text \<open>Decimal rendering of a non-negative integer, as \<^verbatim>\<open>"%d" % n\<close> prints it.\<close>

definition digit_char :: "nat \<Rightarrow> char" where
  "digit_char n = char_of (48 + n)"

function fmt_d :: "nat \<Rightarrow> string" where
  "fmt_d n = (if n < 10 then [digit_char n] else fmt_d (n div 10) @ [digit_char (n mod 10)])"
  by pat_completeness auto
termination
  by (relation "measure (\<lambda>n. n)") auto

text \<open>\<^verbatim>\<open>fmt % (a1, a2, ...)\<close> for a format whose only conversions are \<^verbatim>\<open>%d\<close>.
  Python raises \<open>TypeError\<close> when the arguments run out or are left over.\<close>

fun percent_d :: "string \<Rightarrow> nat list \<Rightarrow> error + string" where
  "percent_d [] [] = Inr []"
| "percent_d [] (a # as) = Inl TypeError"
| "percent_d [c] as = (if as = [] then Inr [c] else Inl TypeError)"
| "percent_d (c # d # cs) as =
     (if c = CHR ''%'' \<and> d = CHR ''d'' then
        (case as of
           [] \<Rightarrow> Inl TypeError
         | a # as' \<Rightarrow> (case percent_d cs as' of Inl e \<Rightarrow> Inl e | Inr r \<Rightarrow> Inr (fmt_d a @ r)))
      else (case percent_d (d # cs) as of Inl e \<Rightarrow> Inl e | Inr r \<Rightarrow> Inr (c # r)))"

subsection \<open>Module constants\<close>

definition DER_SINGLE :: string where
  "DER_SINGLE = ''m/%dh/%dh/%dh''"

definition DER_MULTI :: string where
  "DER_MULTI = ''m/%dh/%dh/%dh/2h''"

definition HARDENED_STR_REPLACE :: char where
  "HARDENED_STR_REPLACE = CHR 0x27"

definition SINGLESIG_SCRIPT_PURPOSE :: "(string \<times> nat) list" where
  "SINGLESIG_SCRIPT_PURPOSE =
     [(''p2pkh'', 44), (''p2sh-p2wpkh'', 49), (''p2wpkh'', 84), (''p2tr'', 86)]"

definition MULTISIG_SCRIPT_PURPOSE :: nat where
  "MULTISIG_SCRIPT_PURPOSE = 48"

text \<open>The network dictionary of the primitive library; only its \<^verbatim>\<open>"bip32"\<close> entry
  (the coin type) is read here.\<close>

record network =
  bip32 :: nat

subsection \<open>\<^verbatim>\<open>Key.get_default_derivation\<close> and the renderings of a path\<close>

definition get_default_derivation :: "bool \<Rightarrow> network \<Rightarrow> nat \<Rightarrow> string \<Rightarrow> error + string" where
  "get_default_derivation multisig net account script_type =
     (let der_format = (if multisig then DER_MULTI else DER_SINGLE) in
      case (if multisig then Some MULTISIG_SCRIPT_PURPOSE
            else map_of SINGLESIG_SCRIPT_PURPOSE script_type) of
        None \<Rightarrow> Inl KeyError
      | Some purpose \<Rightarrow> percent_d der_format [purpose, bip32 net, account])"

text \<open>\<^verbatim>\<open>str.replace("h", "'")\<close>.\<close>

definition replace_h :: "string \<Rightarrow> string" where
  "replace_h s = map (\<lambda>c. if c = CHR ''h'' then HARDENED_STR_REPLACE else c) s"

text \<open>\<^verbatim>\<open>Key.format_derivation\<close>; the pretty prefix is the arrow glyph and a
  space, written as its UTF-8 bytes.\<close>

definition format_derivation :: "string \<Rightarrow> bool \<Rightarrow> string" where
  "format_derivation derivation pretty =
     replace_h ((if pretty then [CHR 0xE2, CHR 0x86, CHR 0xB3, CHR 0x20] else []) @ derivation)"

text \<open>The part of \<^verbatim>\<open>Key.__init__\<close> that does not go through the primitive library:
  the stored flags and the default derivation. The root key, the fingerprint and the
  account key are results of library calls and are not part of this record.\<close>

record key_fields =
  k_multisig :: bool
  k_network :: network
  k_account_index :: nat
  k_script_type :: string
  k_derivation :: string

definition Key_init :: "bool \<Rightarrow> network \<Rightarrow> nat \<Rightarrow> string \<Rightarrow> error + key_fields" where
  "Key_init multisig net account_index script_type =
     (let st = (if \<not> multisig then script_type else ''p2wsh'') in
      case get_default_derivation multisig net account_index st of
        Inl e \<Rightarrow> Inl e
      | Inr d \<Rightarrow> Inr \<lparr>k_multisig = multisig, k_network = net,
                     k_account_index = account_index, k_script_type = st,
                     k_derivation = d\<rparr>)"

text \<open>\<^verbatim>\<open>Key.derivation_str\<close>.\<close>

definition derivation_str :: "key_fields \<Rightarrow> bool \<Rightarrow> string" where
  "derivation_str k pretty = format_derivation (k_derivation k) pretty"

text \<open>The paths as the specification writes them: \<open>m/purpose'/c'/a'\<close> for a single
  signature wallet and \<open>m/48'/c'/a'/2'\<close> for multisig, with the hardened marker as a
  parameter (\<open>h\<close> in the stored string, the apostrophe when displayed).\<close>

definition spec_single_path :: "char \<Rightarrow> string \<Rightarrow> nat \<Rightarrow> nat \<Rightarrow> string" where
  "spec_single_path mark purpose c a =
     ''m/'' @ purpose @ [mark] @ ''/'' @ fmt_d c @ [mark] @ ''/'' @ fmt_d a @ [mark]"

definition spec_multi_path :: "char \<Rightarrow> nat \<Rightarrow> nat \<Rightarrow> string" where
  "spec_multi_path mark c a = spec_single_path mark ''48'' c a @ ''/2'' @ [mark]"

subsection \<open>\<^verbatim>\<open>Key.get_final_word_candidates\<close>\<close>

text \<open>\<^verbatim>\<open>WORDLIST.index(x)\<close>: the first position of \<open>x\<close>, \<open>None\<close> where Python raises
  \<open>ValueError\<close>.\<close>

fun list_index :: "'a list \<Rightarrow> 'a \<Rightarrow> nat option" where
  "list_index [] x = None"
| "list_index (y # ys) x = (if y = x then Some 0 else map_option Suc (list_index ys x))"

text \<open>The list comprehension \<^verbatim>\<open>[WORDLIST.index(x) for x in words]\<close>; it stops at the
  first word that is not in the list.\<close>

fun word_indices :: "string list \<Rightarrow> string list \<Rightarrow> error + nat list" where
  "word_indices wl [] = Inr []"
| "word_indices wl (x # xs) =
     (case list_index wl x of
        None \<Rightarrow> Inl (ValueError ''x not in list'')
      | Some i \<Rightarrow> (case word_indices wl xs of Inl e \<Rightarrow> Inl e | Inr is \<Rightarrow> Inr (i # is)))"

text \<open>\<^verbatim>\<open>n.to_bytes(len, "big")\<close> and \<^verbatim>\<open>int.from_bytes(bs, "big")\<close>.\<close>

definition to_bytes :: "nat \<Rightarrow> nat \<Rightarrow> error + bytes" where
  "to_bytes n len =
     (if n < 256 ^ len then Inr (map (\<lambda>k. of_nat (n div 256 ^ k)) (rev [0..<len]))
      else Inl OverflowError)"

definition from_bytes :: "bytes \<Rightarrow> nat" where
  "from_bytes bs = foldl (\<lambda>a b. a * 256 + unat b) 0 bs"

text \<open>The accumulator loop \<^verbatim>\<open>accu = (accu << 11) + index\<close>.\<close>

definition accumulate :: "nat list \<Rightarrow> nat" where
  "accumulate is = foldl (\<lambda>accu index. push_bit 11 accu + index) 0 is"

text \<open>One round of the candidate loop, for the counter \<open>i\<close>. The word list and the
  hash function belong to the primitive library and are parameters.\<close>

definition final_word ::
  "string list \<Rightarrow> (bytes \<Rightarrow> bytes) \<Rightarrow> nat \<Rightarrow> nat \<Rightarrow> nat \<Rightarrow> nat \<Rightarrow> nat \<Rightarrow> error + string" where
  "final_word WORDLIST sha256 accu len_target len_needed len_cksum i =
     (let entropy = push_bit len_needed accu + i in
      case to_bytes entropy (len_target div 8) of
        Inl e \<Rightarrow> Inl e
      | Inr bs \<Rightarrow>
          (let ck_bytes = sha256 bs;
               cksum = drop_bit (256 - len_cksum) (from_bytes ck_bytes);
               j = push_bit len_cksum i + cksum
           in if j < length WORDLIST then Inr (WORDLIST ! j) else Inl IndexError))"

fun candidates_loop :: "(nat \<Rightarrow> error + string) \<Rightarrow> nat list \<Rightarrow> error + string list" where
  "candidates_loop f [] = Inr []"
| "candidates_loop f (i # is) =
     (case f i of
        Inl e \<Rightarrow> Inl e
      | Inr w \<Rightarrow> (case candidates_loop f is of Inl e \<Rightarrow> Inl e | Inr ws \<Rightarrow> Inr (w # ws)))"

definition get_final_word_candidates ::
  "string list \<Rightarrow> (bytes \<Rightarrow> bytes) \<Rightarrow> string list \<Rightarrow> error + string list" where
  "get_final_word_candidates WORDLIST sha256 words =
     (if length words \<noteq> 11 \<and> length words \<noteq> 23
      then Inl (ValueError ''must provide 11 or 23 words'')
      else
        case word_indices WORDLIST words of
          Inl e \<Rightarrow> Inl e
        | Inr is \<Rightarrow>
            (let accu = accumulate is;
                 len_target = (length words * 11 + 11) div 33 * 32;
                 len_needed = len_target - length words * 11;
                 len_cksum = len_target div 32
             in candidates_loop
                  (final_word WORDLIST sha256 accu len_target len_needed len_cksum)
                  [0..<2 ^ len_needed]))"

text \<open>The checksum rule of BIP-39, as the specification states it for a whole
  mnemonic: the words' 11-bit indices, concatenated, are the entropy followed by a
  checksum field of one bit per 32 bits of entropy, and the field must equal the top
  bits of the SHA-256 digest of the entropy bytes.\<close>

definition spec_checksum_valid :: "string list \<Rightarrow> (bytes \<Rightarrow> bytes) \<Rightarrow> string list \<Rightarrow> bool" where
  "spec_checksum_valid WORDLIST sha256 mnemonic =
     (case word_indices WORDLIST mnemonic of
        Inl e \<Rightarrow> False
      | Inr is \<Rightarrow>
          (let total = 11 * length mnemonic;
               checksum_bits = total div 33;
               entropy_bits = total - checksum_bits;
               entropy = drop_bit checksum_bits (accumulate is);
               field = take_bit checksum_bits (accumulate is)
           in case to_bytes entropy (entropy_bits div 8) of
                Inl e \<Rightarrow> False
              | Inr bs \<Rightarrow> drop_bit (256 - checksum_bits) (from_bytes (sha256 bs)) = field))"

text \<open>A word list, a hash function and an 11-word prefix to run the search on: 2048
  distinct words (\<open>a\<close>, \<open>aa\<close>, ...), a constant 32-byte digest, and eleven times the
  first word.\<close>

definition example_wordlist :: "string list" where
  "example_wordlist = map (\<lambda>k. replicate (Suc k) (CHR ''a'')) [0..<2048]"

definition example_hash :: "bytes \<Rightarrow> bytes" where
  "example_hash m = replicate 32 0"

definition example_prefix :: "string list" where
  "example_prefix = replicate 11 ''a''"

section \<open>psbt.py\<close>

subsection \<open>Data of the PSBT library, as the module reads it\<close>

text \<open>A script object is its \<^verbatim>\<open>data\<close>; a public key and an extended key are
  identified by their serialisations.\<close>

type_synonym script = bytes
type_synonym pubkey = bytes
type_synonym hdkey = bytes

text \<open>\<^verbatim>\<open>DerivationPath\<close>: the master fingerprint and the list of indices.\<close>

record derivation_path =
  fingerprint :: bytes
  derivation :: "nat list"

record txout =
  tx_value :: int
  script_pubkey :: script

text \<open>The fields of an input or output scope that the module reads or writes. A
  dictionary is an association list in insertion order, with each key once.\<close>

record scope =
  witness_utxo :: "txout option"
  witness_script :: "script option"
  redeem_script :: "script option"
  bip32_derivations :: "(pubkey \<times> derivation_path) list"
  partial_sigs :: "(pubkey \<times> bytes) list"

record tx =
  vin :: "bytes list"
  vout :: "txout list"

record psbt =
  p_tx :: tx
  inputs :: "scope list"
  outputs :: "scope list"
  p_xpubs :: "(hdkey \<times> derivation_path) list"

text \<open>A policy dictionary: \<^verbatim>\<open>"type"\<close>, and for multisig the keys \<^verbatim>\<open>"m"\<close>,
  \<^verbatim>\<open>"n"\<close> and \<^verbatim>\<open>"cosigners"\<close>, which \<^verbatim>\<open>policy.update\<close> adds together.\<close>

record policy =
  ptype :: string
  multi :: "(nat \<times> nat \<times> string list) option"

text \<open>The wallet collaborator: its descriptor (with \<^verbatim>\<open>key\<close> or \<^verbatim>\<open>keys\<close>, each
  with an optional origin), its policy, the answers of \<^verbatim>\<open>is_multisig()\<close> and
  \<^verbatim>\<open>is_loaded()\<close>, and the root key \<^verbatim>\<open>wallet.key.root\<close>.\<close>

record descriptor_key =
  dk_key :: hdkey
  dk_origin :: "derivation_path option"

record descriptor =
  d_key :: "descriptor_key option"
  d_keys :: "descriptor_key list"

record wallet =
  w_descriptor :: "descriptor option"
  w_policy :: "policy option"
  w_is_multisig :: bool
  w_is_loaded :: bool
  w_root :: hdkey

text \<open>What arrives from and goes back to the QR layer: a UR object (its type and its
  CBOR), a \<^verbatim>\<open>str\<close> or \<^verbatim>\<open>bytes\<close>.\<close>

datatype qr_data = UR string bytes | Str string | Bytes bytes

datatype registry_type = CRYPTO_PSBT

definition registry_name :: "registry_type \<Rightarrow> string" where
  "registry_name r = ''crypto-psbt''"

subsection \<open>The services the module imports\<close>

text \<open>The primitive library, the encoders, the QR constants and the UI helpers are
  not part of the module; they are parameters. A service that can raise returns an
  option or a sum. \<open>key_of\<close> is the attribute \<^verbatim>\<open>.key\<close> of an extended key,
  \<open>t_tr\<close> the translation function \<^verbatim>\<open>t\<close>, and \<open>PSBT_new\<close> the constructor
  \<^verbatim>\<open>PSBT(tx)\<close>.\<close>

record lib =
  PSBT_parse :: "bytes \<Rightarrow> psbt option"
  PSBT_serialize :: "psbt \<Rightarrow> bytes"
  PSBT_new :: "tx \<Rightarrow> psbt"
  from_cbor :: "bytes \<Rightarrow> bytes option"
  to_cbor :: "bytes \<Rightarrow> bytes"
  base_decode :: "bytes \<Rightarrow> nat \<Rightarrow> bytes option"
  base_encode :: "bytes \<Rightarrow> nat \<Rightarrow> bytes"
  FORMAT_PMOFN :: nat
  script_type :: "script \<Rightarrow> string option"
  parse_multisig :: "script \<Rightarrow> error + (nat \<times> pubkey list)"
  p2wsh :: "script \<Rightarrow> script"
  p2sh :: "script \<Rightarrow> script"
  p2wpkh :: "hdkey \<Rightarrow> script"
  address :: "script \<Rightarrow> string"
  derive :: "hdkey \<Rightarrow> nat list \<Rightarrow> hdkey"
  key_of :: "hdkey \<Rightarrow> pubkey"
  to_base58 :: "hdkey \<Rightarrow> string"
  sign_with :: "psbt \<Rightarrow> hdkey \<Rightarrow> psbt \<times> nat"
  t_tr :: "string \<Rightarrow> string"
  satcomma :: "int \<Rightarrow> string"

text \<open>\<^verbatim>\<open>str.encode()\<close> and \<^verbatim>\<open>bytes.decode()\<close>, on strings of one-byte characters.\<close>

definition str_encode :: "string \<Rightarrow> bytes" where
  "str_encode s = map (\<lambda>c. of_nat (of_char c)) s"

definition bytes_decode :: "bytes \<Rightarrow> string" where
  "bytes_decode bs = map (\<lambda>b. char_of (unat b)) bs"

text \<open>\<^verbatim>\<open>needle in haystack\<close> on strings.\<close>

fun str_in :: "string \<Rightarrow> string \<Rightarrow> bool" where
  "str_in p [] = (p = [])"
| "str_in p (c # cs) = (take (length p) (c # cs) = p \<or> str_in p cs)"

subsection \<open>\<^verbatim>\<open>is_multisig\<close>, \<^verbatim>\<open>get_cosigners\<close>, \<^verbatim>\<open>get_policy\<close>\<close>

text \<open>\<^verbatim>\<open>"type" in policy\<close> raises \<open>TypeError\<close> when the policy is \<^verbatim>\<open>None\<close>.\<close>

definition is_multisig :: "policy option \<Rightarrow> error + bool" where
  "is_multisig pol =
     (case pol of
        None \<Rightarrow> Inl TypeError
      | Some p \<Rightarrow> Inr (str_in ''p2wsh'' (ptype p) \<and> multi p \<noteq> None))"

text \<open>The slices \<^verbatim>\<open>d[:-2]\<close> and \<^verbatim>\<open>d[-2:]\<close>.\<close>

definition all_but_last2 :: "'a list \<Rightarrow> 'a list" where
  "all_but_last2 d = take (length d - 2) d"

definition last2 :: "'a list \<Rightarrow> 'a list" where
  "last2 d = drop (length d - 2) d"

text \<open>The inner loop of \<^verbatim>\<open>get_cosigners\<close>: the base58 string of the first xpub
  that matches the public key, if there is one.\<close>

fun find_xpub ::
  "lib \<Rightarrow> pubkey \<Rightarrow> derivation_path \<Rightarrow> (hdkey \<times> derivation_path) list \<Rightarrow> string option" where
  "find_xpub L pubkey der [] = None"
| "find_xpub L pubkey der ((xpub, origin_der) # rest) =
     (if fingerprint origin_der = fingerprint der
         \<and> derivation origin_der = all_but_last2 (derivation der)
         \<and> key_of L (derive L xpub (last2 (derivation der))) = pubkey
      then Some (to_base58 L xpub)
      else find_xpub L pubkey der rest)"

text \<open>The outer loop, with the list \<^verbatim>\<open>cosigners\<close> as accumulator.\<close>

fun cosigners_loop ::
  "lib \<Rightarrow> pubkey list \<Rightarrow> (pubkey \<times> derivation_path) list \<Rightarrow> (hdkey \<times> derivation_path) list
     \<Rightarrow> string list \<Rightarrow> error + string list" where
  "cosigners_loop L [] derivations xpubs cosigners = Inr cosigners"
| "cosigners_loop L (pubkey # pubkeys) derivations xpubs cosigners =
     (case map_of derivations pubkey of
        None \<Rightarrow> Inl (ValueError ''missing derivation'')
      | Some der \<Rightarrow>
          cosigners_loop L pubkeys derivations xpubs
            (case find_xpub L pubkey der xpubs of
               None \<Rightarrow> cosigners
             | Some s \<Rightarrow> cosigners @ [s]))"

definition get_cosigners ::
  "lib \<Rightarrow> pubkey list \<Rightarrow> (pubkey \<times> derivation_path) list \<Rightarrow> (hdkey \<times> derivation_path) list
     \<Rightarrow> error + string list" where
  "get_cosigners L pubkeys derivations xpubs =
     (case cosigners_loop L pubkeys derivations xpubs [] of
        Inl e \<Rightarrow> Inl e
      | Inr cosigners \<Rightarrow>
          if length cosigners \<noteq> length pubkeys
          then Inl (ValueError ''cannot get all cosigners'')
          else Inr (sort cosigners))"

text \<open>\<^verbatim>\<open>get_policy\<close>. The test \<^verbatim>\<open>"p2wsh" in script_type\<close> raises \<open>TypeError\<close>
  when the library knows no type for the script.\<close>

definition get_policy ::
  "lib \<Rightarrow> scope \<Rightarrow> script \<Rightarrow> (hdkey \<times> derivation_path) list \<Rightarrow> error + policy" where
  "get_policy L scope scriptpubkey xpubs =
     (let st0 = script_type L scriptpubkey;
          st1 = (if st0 = Some ''p2sh'' then
                   (if witness_script scope \<noteq> None then Some ''p2sh-p2wsh''
                    else if (case redeem_script scope of
                               None \<Rightarrow> False
                             | Some rs \<Rightarrow> script_type L rs = Some ''p2wpkh'')
                    then Some ''p2sh-p2wpkh''
                    else st0)
                 else st0)
      in case st1 of
           None \<Rightarrow> Inl TypeError
         | Some st \<Rightarrow>
             (case (if str_in ''p2wsh'' st then witness_script scope else None) of
                None \<Rightarrow> Inr \<lparr>ptype = st, multi = None\<rparr>
              | Some ws \<Rightarrow>
                  (case parse_multisig L ws of
                     Inl e \<Rightarrow> Inl e
                   | Inr (m, pubkeys) \<Rightarrow>
                       (case get_cosigners L pubkeys (bip32_derivations scope) xpubs of
                          Inl e \<Rightarrow> Inl e
                        | Inr cosigners \<Rightarrow>
                            Inr \<lparr>ptype = st,
                                 multi = Some (m, length cosigners, cosigners)\<rparr>))))"

subsection \<open>\<^verbatim>\<open>PSBTSigner\<close>: construction\<close>

record signer =
  s_wallet :: wallet
  base_encoding :: "nat option"
  ur_type :: "registry_type option"
  qr_format :: nat
  s_psbt :: psbt
  s_policy :: "policy option"

text \<open>\<^verbatim>\<open>PSBT.parse(base_decode(psbt_data, n))\<close> inside its \<^verbatim>\<open>try\<close>: \<open>None\<close> when
  either call raises.\<close>

definition parse_base :: "lib \<Rightarrow> bytes \<Rightarrow> nat \<Rightarrow> psbt option" where
  "parse_base L psbt_data n =
     (case base_decode L psbt_data n of None \<Rightarrow> None | Some d \<Rightarrow> PSBT_parse L d)"

text \<open>The parsing part of \<^verbatim>\<open>__init__\<close>: the PSBT, \<^verbatim>\<open>base_encoding\<close> and
  \<^verbatim>\<open>ur_type\<close>.\<close>

definition parse_psbt_data ::
  "lib \<Rightarrow> nat \<Rightarrow> qr_data \<Rightarrow> error + (psbt \<times> nat option \<times> registry_type option)" where
  "parse_psbt_data L qr_fmt psbt_data =
     (case psbt_data of
        UR ty cbor \<Rightarrow>
          (case (case from_cbor L cbor of None \<Rightarrow> None | Some d \<Rightarrow> PSBT_parse L d) of
             None \<Rightarrow> Inl (ValueError ''invalid PSBT'')
           | Some p \<Rightarrow> Inr (p, None, Some CRYPTO_PSBT))
      | _ \<Rightarrow>
          (let data = (case psbt_data of Str s \<Rightarrow> str_encode s | Bytes b \<Rightarrow> b | UR ty c \<Rightarrow> c)
           in case PSBT_parse L data of
                Some p \<Rightarrow> Inr (p, (if qr_fmt = FORMAT_PMOFN L then Some 64 else None), None)
              | None \<Rightarrow>
                  (case parse_base L data 64 of
                     Some p \<Rightarrow> Inr (p, Some 64, None)
                   | None \<Rightarrow>
                       (case parse_base L data 58 of
                          Some p \<Rightarrow> Inr (p, Some 58, None)
                        | None \<Rightarrow>
                            (case parse_base L data 43 of
                               Some p \<Rightarrow> Inr (p, Some 43, None)
                             | None \<Rightarrow> Inl (ValueError ''invalid PSBT''))))))"

text \<open>\<^verbatim>\<open>xpubs[key] = value\<close> on a dictionary.\<close>

fun dict_set :: "('k \<times> 'v) list \<Rightarrow> 'k \<Rightarrow> 'v \<Rightarrow> ('k \<times> 'v) list" where
  "dict_set [] k v = [(k, v)]"
| "dict_set ((k', v') # kvs) k v =
     (if k' = k then (k, v) # kvs else (k', v') # dict_set kvs k v)"

text \<open>The loop of \<^verbatim>\<open>xpubs()\<close> over the descriptor keys.\<close>

fun descriptor_xpubs ::
  "descriptor_key list \<Rightarrow> (hdkey \<times> derivation_path) list \<Rightarrow> (hdkey \<times> derivation_path) list" where
  "descriptor_xpubs [] xpubs = xpubs"
| "descriptor_xpubs (descriptor_key # rest) xpubs =
     descriptor_xpubs rest
       (case dk_origin descriptor_key of
          None \<Rightarrow> xpubs
        | Some origin \<Rightarrow>
            dict_set xpubs (dk_key descriptor_key)
              \<lparr>fingerprint = fingerprint origin, derivation = derivation origin\<rparr>)"

text \<open>The local \<^verbatim>\<open>descriptor_keys\<close> of \<^verbatim>\<open>xpubs()\<close>: the descriptor's single key
  if it has one, its list of keys otherwise.\<close>

definition descriptor_keys :: "descriptor \<Rightarrow> descriptor_key list" where
  "descriptor_keys d = (case d_key d of Some k \<Rightarrow> [k] | None \<Rightarrow> d_keys d)"

text \<open>\<^verbatim>\<open>PSBTSigner.xpubs\<close>.\<close>

definition xpubs_of :: "signer \<Rightarrow> error + (hdkey \<times> derivation_path) list" where
  "xpubs_of s =
     (if p_xpubs (s_psbt s) \<noteq> [] then Inr (p_xpubs (s_psbt s))
      else
        case w_descriptor (s_wallet s) of
          None \<Rightarrow> Inl (ValueError ''missing xpubs'')
        | Some d \<Rightarrow> Inr (descriptor_xpubs (descriptor_keys d) []))"

text \<open>The policy of one input, inside the \<^verbatim>\<open>try\<close> of the validation loop:
  \<^verbatim>\<open>inp.witness_utxo.script_pubkey\<close> raises when there is no witness UTXO.\<close>

definition input_policy ::
  "lib \<Rightarrow> (hdkey \<times> derivation_path) list \<Rightarrow> scope \<Rightarrow> error + policy" where
  "input_policy L xpubs inp =
     (case witness_utxo inp of
        None \<Rightarrow> Inl AttributeError
      | Some u \<Rightarrow> get_policy L inp (script_pubkey u) xpubs)"

text \<open>The validation loop over the inputs, with \<^verbatim>\<open>self.policy\<close> as accumulator.\<close>

fun policy_loop ::
  "lib \<Rightarrow> (hdkey \<times> derivation_path) list \<Rightarrow> scope list \<Rightarrow> policy option
     \<Rightarrow> error + policy option" where
  "policy_loop L xpubs [] pol = Inr pol"
| "policy_loop L xpubs (inp # inps) pol =
     (case input_policy L xpubs inp of
        Inl e \<Rightarrow> Inl (ValueError ''Unable to get policy'')
      | Inr inp_policy \<Rightarrow>
          (case pol of
             None \<Rightarrow> policy_loop L xpubs inps (Some inp_policy)
           | Some p \<Rightarrow>
               if p \<noteq> inp_policy then Inl (ValueError ''mixed inputs in the tx'')
               else policy_loop L xpubs inps pol))"

text \<open>\<^verbatim>\<open>PSBTSigner.__init__\<close>. \<open>Inr\<close> is the constructed signer (the state Ready),
  \<open>Inl\<close> the exception that ended the construction.\<close>

definition PSBTSigner_init :: "lib \<Rightarrow> wallet \<Rightarrow> qr_data \<Rightarrow> nat \<Rightarrow> error + signer" where
  "PSBTSigner_init L wal psbt_data qr_fmt =
     (case parse_psbt_data L qr_fmt psbt_data of
        Inl e \<Rightarrow> Inl e
      | Inr (p, be, ur) \<Rightarrow>
          (let s = \<lparr>s_wallet = wal, base_encoding = be, ur_type = ur, qr_format = qr_fmt,
                    s_psbt = p, s_policy = None\<rparr>
           in case xpubs_of s of
                Inl e \<Rightarrow> Inl e
              | Inr xpubs \<Rightarrow>
                  (case policy_loop L xpubs (inputs p) None of
                     Inl e \<Rightarrow> Inl e
                   | Inr pol \<Rightarrow>
                       (case is_multisig pol of
                          Inl e \<Rightarrow> Inl e
                        | Inr ms \<Rightarrow>
                            if ms \<and> \<not> w_is_multisig wal then Inl (ValueError ''multisig tx'')
                            else if \<not> ms \<and> w_is_multisig wal
                            then Inl (ValueError ''not multisig tx'')
                            else if w_is_loaded wal \<and> w_policy wal \<noteq> pol
                            then Inl (ValueError ''policy mismatch'')
                            else Inr (s\<lparr>s_policy := pol\<rparr>)))))"

subsection \<open>\<^verbatim>\<open>PSBTSigner.sign\<close> and \<^verbatim>\<open>PSBTSigner.psbt_qr\<close>\<close>

text \<open>The loop \<^verbatim>\<open>trimmed_psbt.inputs[i].partial_sigs = inp.partial_sigs\<close>; the index
  is out of range when the trimmed PSBT has fewer inputs.\<close>

fun copy_partial_sigs :: "scope list \<Rightarrow> (nat \<times> scope) list \<Rightarrow> error + scope list" where
  "copy_partial_sigs trimmed [] = Inr trimmed"
| "copy_partial_sigs trimmed ((i, inp) # rest) =
     (if i < length trimmed
      then copy_partial_sigs
             (trimmed[i := (trimmed ! i)\<lparr>partial_sigs := partial_sigs inp\<rparr>]) rest
      else Inl IndexError)"

definition sign :: "lib \<Rightarrow> signer \<Rightarrow> error + signer" where
  "sign L s =
     (case sign_with L (s_psbt s) (w_root (s_wallet s)) of
        (psbt1, sigs_added) \<Rightarrow>
          if sigs_added = 0 then Inl (ValueError ''cannot sign'')
          else
            (let trimmed_psbt = PSBT_new L (p_tx psbt1)
             in case copy_partial_sigs (inputs trimmed_psbt) (enumerate 0 (inputs psbt1)) of
                  Inl e \<Rightarrow> Inl e
                | Inr ins \<Rightarrow> Inr (s\<lparr>s_psbt := trimmed_psbt\<lparr>inputs := ins\<rparr>\<rparr>)))"

text \<open>\<^verbatim>\<open>psbt_qr\<close>. The CBOR wrapper takes bytes; a string there is a \<open>TypeError\<close>.\<close>

definition psbt_qr :: "lib \<Rightarrow> signer \<Rightarrow> error + (qr_data \<times> nat)" where
  "psbt_qr L s =
     (let raw = PSBT_serialize L (s_psbt s);
          psbt_data = (case base_encoding s of
                         None \<Rightarrow> Bytes raw
                       | Some n \<Rightarrow> Str (bytes_decode (base_encode L raw n)))
      in if ur_type s = Some CRYPTO_PSBT then
           (case psbt_data of
              Bytes b \<Rightarrow> Inr (UR (registry_name CRYPTO_PSBT) (to_cbor L b), qr_format s)
            | _ \<Rightarrow> Inl TypeError)
         else Inr (psbt_data, qr_format s))"

subsection \<open>\<^verbatim>\<open>PSBTSigner.outputs\<close>\<close>

definition bind_err :: "error + 'a \<Rightarrow> ('a \<Rightarrow> error + 'b) \<Rightarrow> error + 'b" where
  "bind_err x f = (case x of Inl e \<Rightarrow> Inl e | Inr v \<Rightarrow> f v)"

text \<open>\<^verbatim>\<open>fmt % args\<close> with the conversions \<^verbatim>\<open>%d\<close> and \<^verbatim>\<open>%s\<close>, the arguments
  already rendered.\<close>

fun percent :: "string \<Rightarrow> string list \<Rightarrow> error + string" where
  "percent [] [] = Inr []"
| "percent [] (a # as) = Inl TypeError"
| "percent [c] as = (if as = [] then Inr [c] else Inl TypeError)"
| "percent (c # d # cs) as =
     (if c = CHR ''%'' \<and> (d = CHR ''d'' \<or> d = CHR ''s'') then
        (case as of
           [] \<Rightarrow> Inl TypeError
         | a # as' \<Rightarrow> (case percent cs as' of Inl e \<Rightarrow> Inl e | Inr r \<Rightarrow> Inr (a @ r)))
      else (case percent (d # cs) as of Inl e \<Rightarrow> Inl e | Inr r \<Rightarrow> Inr (c # r)))"

text \<open>The format of an amount: the bitcoin sign (three bytes in UTF-8) and \<^verbatim>\<open>%s\<close>;
  \<open>btc\<close> is \<^verbatim>\<open>t(...) % satcomma(amount)\<close>.\<close>

definition btc_fmt :: string where
  "btc_fmt = [CHR 0xE2, CHR 0x82, CHR 0xBF] @ ''%s''"

definition btc :: "lib \<Rightarrow> int \<Rightarrow> error + string" where
  "btc L amount = percent (t_tr L btc_fmt) [satcomma L amount]"

definition nl2 :: string where
  "nl2 = [CHR 0x0A, CHR 0x0A]"

text \<open>The loop \<^verbatim>\<open>inp_amount += inp.witness_utxo.value\<close>.\<close>

fun inputs_amount :: "scope list \<Rightarrow> int \<Rightarrow> error + int" where
  "inputs_amount [] inp_amount = Inr inp_amount"
| "inputs_amount (inp # inps) inp_amount =
     (case witness_utxo inp of
        None \<Rightarrow> Inl AttributeError
      | Some u \<Rightarrow> inputs_amount inps (inp_amount + tx_value u))"

text \<open>The local variables of the loop over the outputs. \<open>sc_var\<close> is the variable
  \<^verbatim>\<open>sc\<close>: it is assigned only inside \<^verbatim>\<open>if out_policy == self.policy\<close>, keeps its
  value from one round to the next, and is unbound (\<open>None\<close>) until its first
  assignment.\<close>

record out_state =
  sc_var :: "script option"
  self_transfer_list :: "(string \<times> int) list"
  change_list :: "(string \<times> int) list"
  spend_list :: "(string \<times> int) list"
  self_amount :: int
  change_amount :: int
  spend_amount :: int

definition initial_out_state :: out_state where
  "initial_out_state =
     \<lparr>sc_var = None, self_transfer_list = [], change_list = [], spend_list = [],
      self_amount = 0, change_amount = 0, spend_amount = 0\<rparr>"

text \<open>The body of \<^verbatim>\<open>if out_policy == self.policy\<close>: the script rebuilt for the output.
  The library's \<^verbatim>\<open>p2wsh(None)\<close> reads \<^verbatim>\<open>None.data\<close>.\<close>

definition rebuild_script :: "lib \<Rightarrow> signer \<Rightarrow> policy \<Rightarrow> scope \<Rightarrow> error + script" where
  "rebuild_script L s pol out =
     (if ptype pol = ''p2wsh'' then
        (case witness_script out of
           None \<Rightarrow> Inl AttributeError
         | Some ws \<Rightarrow> Inr (p2wsh L ws))
      else if ptype pol = ''p2sh-p2wsh'' then
        (case witness_script out of
           None \<Rightarrow> Inl AttributeError
         | Some ws \<Rightarrow> Inr (p2sh L (p2wsh L ws)))
      else if str_in ''pkh'' (ptype pol) then
        (case bip32_derivations out of
           [] \<Rightarrow> Inr []
         | (pk, d) # rest \<Rightarrow>
             (let my_hd_prvkey = derive L (w_root (s_wallet s)) (derivation d)
              in if ptype pol = ''p2wpkh'' then Inr (p2wpkh L my_hd_prvkey)
                 else if ptype pol = ''p2sh-p2wpkh'' then Inr (p2sh L (p2wpkh L my_hd_prvkey))
                 else Inr []))
      else Inr [])"

text \<open>The test \<^verbatim>\<open>len(...) > 0 and list(...)[0].derivation[3] == 1\<close>.\<close>

definition is_change :: "scope \<Rightarrow> error + bool" where
  "is_change out =
     (case bip32_derivations out of
        [] \<Rightarrow> Inr False
      | (pk, d) # rest \<Rightarrow>
          if 3 < length (derivation d) then Inr (derivation d ! 3 = 1) else Inl IndexError)"

text \<open>One round of the loop, for the output scope \<open>out\<close> at index \<open>i\<close>.\<close>

definition classify_output ::
  "lib \<Rightarrow> signer \<Rightarrow> (hdkey \<times> derivation_path) list \<Rightarrow> out_state \<Rightarrow> nat \<Rightarrow> scope
     \<Rightarrow> error + out_state" where
  "classify_output L s xpubs st i out =
     (if \<not> i < length (vout (p_tx (s_psbt s))) then Inl IndexError
      else
        (let txo = vout (p_tx (s_psbt s)) ! i in
         bind_err (get_policy L out (script_pubkey txo) xpubs) (\<lambda>out_policy.
         bind_err (if Some out_policy = s_policy s
                   then bind_err (rebuild_script L s out_policy out) (\<lambda>r. Inr (Some r))
                   else Inr (sc_var st)) (\<lambda>sc1.
         case sc1 of
           None \<Rightarrow> Inl UnboundLocalError
         | Some sc_data \<Rightarrow>
             (let st1 = st\<lparr>sc_var := sc1\<rparr>;
                  entry = (address L (script_pubkey txo), tx_value txo)
              in if sc_data = script_pubkey txo then
                   bind_err (is_change out) (\<lambda>chg.
                     if chg
                     then Inr (st1\<lparr>change_list := change_list st1 @ [entry],
                                  change_amount := change_amount st1 + tx_value txo\<rparr>)
                     else Inr (st1\<lparr>self_transfer_list := self_transfer_list st1 @ [entry],
                                  self_amount := self_amount st1 + tx_value txo\<rparr>))
                 else Inr (st1\<lparr>spend_list := spend_list st1 @ [entry],
                              spend_amount := spend_amount st1 + tx_value txo\<rparr>))))))"

fun outputs_loop ::
  "lib \<Rightarrow> signer \<Rightarrow> (hdkey \<times> derivation_path) list \<Rightarrow> (nat \<times> scope) list \<Rightarrow> out_state
     \<Rightarrow> error + out_state" where
  "outputs_loop L s xpubs [] st = Inr st"
| "outputs_loop L s xpubs ((i, out) # rest) st =
     bind_err (classify_output L s xpubs st i out) (outputs_loop L s xpubs rest)"

text \<open>The classification of all outputs: \<^verbatim>\<open>xpubs = self.xpubs()\<close> and the loop.\<close>

definition classify_outputs :: "lib \<Rightarrow> signer \<Rightarrow> error + out_state" where
  "classify_outputs L s =
     bind_err (xpubs_of s) (\<lambda>xpubs.
       outputs_loop L s xpubs (enumerate 0 (outputs (s_psbt s))) initial_out_state)"

text \<open>The loops that render one message per entry of a list.\<close>

fun entry_messages :: "lib \<Rightarrow> string \<Rightarrow> nat \<Rightarrow> (string \<times> int) list \<Rightarrow> error + string list" where
  "entry_messages L fmt i [] = Inr []"
| "entry_messages L fmt i (out # outs) =
     bind_err (percent (t_tr L fmt) [fmt_d (i + 1), fst out]) (\<lambda>a.
     bind_err (btc L (snd out)) (\<lambda>b.
     bind_err (entry_messages L fmt (i + 1) outs) (\<lambda>msgs. Inr ((a @ b) # msgs))))"

text \<open>\<^verbatim>\<open>PSBTSigner.outputs\<close>; the name \<open>outputs\<close> is the field of the PSBT.\<close>

definition PSBTSigner_outputs :: "lib \<Rightarrow> signer \<Rightarrow> error + string list" where
  "PSBTSigner_outputs L s =
     bind_err (inputs_amount (inputs (s_psbt s)) 0) (\<lambda>inp_amount.
     bind_err (percent (t_tr L ''Inputs (%d): '') [fmt_d (length (inputs (s_psbt s)))]) (\<lambda>a.
     bind_err (btc L inp_amount) (\<lambda>b.
     bind_err (classify_outputs L s) (\<lambda>st.
     bind_err (if length (spend_list st) > 0
               then bind_err (percent (t_tr L ''Spend (%d): '') [fmt_d (length (spend_list st))])
                      (\<lambda>c. bind_err (btc L (spend_amount st)) (\<lambda>d. Inr (c @ d @ nl2)))
               else Inr []) (\<lambda>resume_spend_str.
     bind_err (if length (self_transfer_list st) + length (change_list st) > 0
               then bind_err (percent (t_tr L ''Self-transfer or Change (%d): '')
                                [fmt_d (length (self_transfer_list st) + length (change_list st))])
                      (\<lambda>c. bind_err (btc L (self_amount st + change_amount st))
                         (\<lambda>d. Inr (c @ d @ nl2)))
               else Inr []) (\<lambda>resume_self_or_change_str.
     bind_err (btc L (inp_amount - spend_amount st - self_amount st - change_amount st)) (\<lambda>f.
     bind_err (entry_messages L (''%d. Spend: '' @ nl2 @ ''%s'' @ nl2) 0 (spend_list st)) (\<lambda>m1.
     bind_err (entry_messages L (''%d. Self-transfer: '' @ nl2 @ ''%s'' @ nl2) 0
                 (self_transfer_list st)) (\<lambda>m2.
     bind_err (entry_messages L (''%d. Change: '' @ nl2 @ ''%s'' @ nl2) 0 (change_list st)) (\<lambda>m3.
       Inr ((a @ b @ nl2 @ resume_spend_str @ resume_self_or_change_str @ t_tr L ''Fee: '' @ f)
            # m1 @ m2 @ m3)))))))))))"

subsection \<open>Notions used to state the properties of the policy extractor\<close>

text \<open>The match that \<^verbatim>\<open>get_cosigners\<close> looks for, as the specification words it: the
  xpub's origin fingerprint is the fingerprint of the public key's derivation, its origin
  path is that derivation without its last two indices, and the xpub derives to the
  public key along these two indices. \<open>matched\<close> is the base58 string of the first
  such xpub for a public key, \<open>spec_matches\<close> the matches of all public keys.\<close>


definition matched ::
  "lib \<Rightarrow> (pubkey \<times> derivation_path) list \<Rightarrow> (hdkey \<times> derivation_path) list \<Rightarrow> pubkey
     \<Rightarrow> string option" where
  "matched L derivations xpubs pubkey =
     (case map_of derivations pubkey of
        None \<Rightarrow> None
      | Some der \<Rightarrow> find_xpub L pubkey der xpubs)"

definition spec_matches ::
  "lib \<Rightarrow> pubkey list \<Rightarrow> (pubkey \<times> derivation_path) list \<Rightarrow> (hdkey \<times> derivation_path) list
     \<Rightarrow> string list" where
  "spec_matches L pubkeys derivations xpubs =
     List.map_filter (matched L derivations xpubs) pubkeys"

definition xpub_matches :: "lib \<Rightarrow> pubkey \<Rightarrow> derivation_path \<Rightarrow> hdkey \<times> derivation_path \<Rightarrow> bool" where
  "xpub_matches L pubkey der x =
     (fingerprint (snd x) = fingerprint der
      \<and> derivation (snd x) = all_but_last2 (derivation der)
      \<and> key_of L (derive L (fst x) (last2 (derivation der))) = pubkey)"

subsection \<open>A concrete library and concrete wallets to evaluate the module on\<close>

text \<open>Small stand-ins for the imported services: a script is a tag byte followed by
  the data it commits to, derivation adds the path's indices to the key bytes, a
  multisig witness script is the threshold followed by one-byte public keys, base-n
  encoding prefixes the byte \<open>n\<close>, and the CBOR wrapper prefixes \<open>0xD8\<close>.\<close>

definition ex_script_type :: "script \<Rightarrow> string option" where
  "ex_script_type scr =
     (case scr of
        [] \<Rightarrow> None
      | b # rest \<Rightarrow>
          if b = 0x76 then Some ''p2pkh''
          else if b = 0xA9 then Some ''p2sh''
          else if b = 0x14 then Some ''p2wpkh''
          else if b = 0x20 then Some ''p2wsh''
          else None)"

definition ex_parse_multisig :: "script \<Rightarrow> error + (nat \<times> pubkey list)" where
  "ex_parse_multisig ws =
     (case ws of
        [] \<Rightarrow> Inl (ValueError ''not multisig'')
      | m # pks \<Rightarrow> Inr (unat m, map (\<lambda>b. [b]) pks))"

definition ex_derive :: "hdkey \<Rightarrow> nat list \<Rightarrow> hdkey" where
  "ex_derive k path = map (\<lambda>b. b + of_nat (sum_list path)) k"

definition ex_to_base58 :: "hdkey \<Rightarrow> string" where
  "ex_to_base58 k =
     (if k = [0x10] then ''xpubA'' else if k = [0x20] then ''xpubB'' else ''xpubC'')"

definition ex_base_decode :: "bytes \<Rightarrow> nat \<Rightarrow> bytes option" where
  "ex_base_decode bs n =
     (case bs of [] \<Rightarrow> None | b # rest \<Rightarrow> if b = of_nat n then Some rest else None)"

definition ex_from_cbor :: "bytes \<Rightarrow> bytes option" where
  "ex_from_cbor bs =
     (case bs of [] \<Rightarrow> None | b # rest \<Rightarrow> if b = 0xD8 then Some rest else None)"

definition empty_scope :: scope where
  "empty_scope =
     \<lparr>witness_utxo = None, witness_script = None, redeem_script = None,
      bip32_derivations = [], partial_sigs = []\<rparr>"

definition ex_PSBT_new :: "tx \<Rightarrow> psbt" where
  "ex_PSBT_new tr =
     \<lparr>p_tx = tr, inputs = replicate (length (vin tr)) empty_scope,
      outputs = replicate (length (vout tr)) empty_scope, p_xpubs = []\<rparr>"

definition ex_sign_with :: "psbt \<Rightarrow> hdkey \<Rightarrow> psbt \<times> nat" where
  "ex_sign_with p k =
     (p\<lparr>inputs := map (\<lambda>inp. if bip32_derivations inp = [] then inp
                              else inp\<lparr>partial_sigs := partial_sigs inp @ [(k, [0x30])]\<rparr>)
                     (inputs p)\<rparr>,
      length (filter (\<lambda>inp. bip32_derivations inp \<noteq> []) (inputs p)))"

text \<open>Hardened indices: \<open>84h\<close>, \<open>48h\<close>, \<open>0h\<close>, \<open>1h\<close>, \<open>2h\<close>.\<close>

definition h84 :: nat where "h84 = 2147483732"
definition h48 :: nat where "h48 = 2147483696"
definition h0 :: nat where "h0 = 2147483648"
definition h1 :: nat where "h1 = 2147483649"
definition h2 :: nat where "h2 = 2147483650"

text \<open>A single signature wallet with root key \<open>[0x07]\<close> and account path
  \<open>m/84h/0h/0h\<close>. Its receive key at \<open>0/0\<close> is \<open>[0x5B]\<close> and its change key at
  \<open>1/0\<close> is \<open>[0x5C]\<close>.\<close>

definition ex_single_policy :: policy where
  "ex_single_policy = \<lparr>ptype = ''p2wpkh'', multi = None\<rparr>"

definition ex_wallet :: wallet where
  "ex_wallet =
     \<lparr>w_descriptor = Some \<lparr>d_key = Some \<lparr>dk_key = [0x09],
                                          dk_origin = Some \<lparr>fingerprint = [0xAA],
                                                            derivation = [h84, h0, h0]\<rparr>\<rparr>,
                           d_keys = []\<rparr>,
      w_policy = Some ex_single_policy, w_is_multisig = False, w_is_loaded = False,
      w_root = [0x07]\<rparr>"

text \<open>The same wallet with a descriptor whose key has no origin data.\<close>

definition ex_wallet_no_origin :: wallet where
  "ex_wallet_no_origin =
     ex_wallet\<lparr>w_descriptor := Some \<lparr>d_key = Some \<lparr>dk_key = [0x09], dk_origin = None\<rparr>,
                                     d_keys = []\<rparr>\<rparr>"

definition ex_input :: scope where
  "ex_input =
     \<lparr>witness_utxo = Some \<lparr>tx_value = 100000, script_pubkey = [0x14, 0x5B]\<rparr>,
      witness_script = None, redeem_script = None,
      bip32_derivations = [([0x5B], \<lparr>fingerprint = [0xAA],
                                     derivation = [h84, h0, h0, 0, 0]\<rparr>)],
      partial_sigs = []\<rparr>"

definition ex_change_out :: scope where
  "ex_change_out =
     empty_scope\<lparr>bip32_derivations :=
       [([0x5C], \<lparr>fingerprint = [0xAA], derivation = [h84, h0, h0, 1, 0]\<rparr>)]\<rparr>"

definition ex_change_txout :: txout where
  "ex_change_txout = \<lparr>tx_value = 39000, script_pubkey = [0x14, 0x5C]\<rparr>"

definition ex_spend_txout :: txout where
  "ex_spend_txout = \<lparr>tx_value = 60000, script_pubkey = [0x76, 0x99]\<rparr>"

text \<open>Two PSBTs of that wallet spending 100000 with a fee of 1000: one lists the
  change output first, the other the payment (to a p2pkh address) first.\<close>

definition ex_psbt_change_first :: psbt where
  "ex_psbt_change_first =
     \<lparr>p_tx = \<lparr>vin = [[0x01]], vout = [ex_change_txout, ex_spend_txout]\<rparr>,
      inputs = [ex_input], outputs = [ex_change_out, empty_scope], p_xpubs = []\<rparr>"

definition ex_psbt_spend_first :: psbt where
  "ex_psbt_spend_first =
     \<lparr>p_tx = \<lparr>vin = [[0x01]], vout = [ex_spend_txout, ex_change_txout]\<rparr>,
      inputs = [ex_input], outputs = [empty_scope, ex_change_out], p_xpubs = []\<rparr>"

text \<open>A PSBT with a p2wpkh input and a p2pkh input.\<close>

definition ex_psbt_mixed :: psbt where
  "ex_psbt_mixed =
     \<lparr>p_tx = \<lparr>vin = [[0x01], [0x02]], vout = [ex_spend_txout]\<rparr>,
      inputs = [ex_input,
                empty_scope\<lparr>witness_utxo := Some \<lparr>tx_value = 5000,
                                                     script_pubkey = [0x76, 0x42]\<rparr>\<rparr>],
      outputs = [empty_scope], p_xpubs = []\<rparr>"

text \<open>A 2-of-2 multisig wallet with cosigner xpubs \<open>[0x10]\<close> and \<open>[0x20]\<close> at
  \<open>m/48h/1h/0h/2h\<close>, the default multisig path of \<open>key.py\<close>, and a PSBT that spends
  from its address \<open>0/3\<close> to its change address \<open>1/0\<close>.\<close>

definition ex_origin_A :: derivation_path where
  "ex_origin_A = \<lparr>fingerprint = [0xAA], derivation = [h48, h1, h0, h2]\<rparr>"

definition ex_origin_B :: derivation_path where
  "ex_origin_B = \<lparr>fingerprint = [0xBB], derivation = [h48, h1, h0, h2]\<rparr>"

definition ex_multi_policy :: policy where
  "ex_multi_policy = \<lparr>ptype = ''p2wsh'', multi = Some (2, 2, [''xpubA'', ''xpubB''])\<rparr>"

definition ex_multi_wallet :: wallet where
  "ex_multi_wallet =
     \<lparr>w_descriptor = Some \<lparr>d_key = None,
                           d_keys = [\<lparr>dk_key = [0x10], dk_origin = Some ex_origin_A\<rparr>,
                                     \<lparr>dk_key = [0x20], dk_origin = Some ex_origin_B\<rparr>]\<rparr>,
      w_policy = Some ex_multi_policy, w_is_multisig = True, w_is_loaded = True,
      w_root = [0x07]\<rparr>"

text \<open>The same wallet loaded from a descriptor of pure xpubs, without origins.\<close>

definition ex_multi_wallet_no_origin :: wallet where
  "ex_multi_wallet_no_origin =
     ex_multi_wallet\<lparr>w_descriptor :=
       Some \<lparr>d_key = None,
             d_keys = [\<lparr>dk_key = [0x10], dk_origin = None\<rparr>,
                       \<lparr>dk_key = [0x20], dk_origin = None\<rparr>]\<rparr>\<rparr>"

definition ex_multi_derivs :: "nat \<Rightarrow> nat \<Rightarrow> (pubkey \<times> derivation_path) list" where
  "ex_multi_derivs c i =
     [([0x10 + of_nat (c + i)], ex_origin_A\<lparr>derivation := [h48, h1, h0, h2, c, i]\<rparr>),
      ([0x20 + of_nat (c + i)], ex_origin_B\<lparr>derivation := [h48, h1, h0, h2, c, i]\<rparr>)]"

definition ex_multi_input :: scope where
  "ex_multi_input =
     \<lparr>witness_utxo = Some \<lparr>tx_value = 50000, script_pubkey = [0x20, 2, 0x13, 0x23]\<rparr>,
      witness_script = Some [2, 0x13, 0x23], redeem_script = None,
      bip32_derivations = ex_multi_derivs 0 3, partial_sigs = []\<rparr>"

definition ex_multi_change_out :: scope where
  "ex_multi_change_out =
     empty_scope\<lparr>witness_script := Some [2, 0x11, 0x21],
                 bip32_derivations := ex_multi_derivs 1 0\<rparr>"

definition ex_psbt_multi :: psbt where
  "ex_psbt_multi =
     \<lparr>p_tx = \<lparr>vin = [[0x01]],
              vout = [\<lparr>tx_value = 49000, script_pubkey = [0x20, 2, 0x11, 0x21]\<rparr>]\<rparr>,
      inputs = [ex_multi_input], outputs = [ex_multi_change_out], p_xpubs = []\<rparr>"

text \<open>An input that sends \<^verbatim>\<open>get_policy\<close> into cosigner matching with at least one
  public key: it has a witness UTXO whose script is of type p2sh or of a type containing
  p2wsh, and a witness script that parses as a multisig script with a non-empty list of
  public keys.\<close>

definition cosigner_matching_input :: "lib \<Rightarrow> scope \<Rightarrow> bool" where
  "cosigner_matching_input L inp =
     (case witness_utxo inp of
        None \<Rightarrow> False
      | Some u \<Rightarrow>
          (case witness_script inp of
             None \<Rightarrow> False
           | Some ws \<Rightarrow>
               (case script_type L (script_pubkey u) of
                  None \<Rightarrow> False
                | Some st \<Rightarrow> st = ''p2sh'' \<or> str_in ''p2wsh'' st)
               \<and> (case parse_multisig L ws of
                    Inl e \<Rightarrow> False
                  | Inr (m, pubkeys) \<Rightarrow> pubkeys \<noteq> [])))"

text \<open>The PSBT codec of the concrete library: the magic bytes and the position of the
  PSBT in a table.\<close>

definition ex_psbts :: "psbt list" where
  "ex_psbts = [ex_psbt_change_first, ex_psbt_spend_first, ex_psbt_mixed, ex_psbt_multi]"

definition psbt_magic :: bytes where
  "psbt_magic = [0x70, 0x73, 0x62, 0x74, 0xFF]"

definition ex_PSBT_parse :: "bytes \<Rightarrow> psbt option" where
  "ex_PSBT_parse bs =
     (if take 5 bs = psbt_magic \<and> length bs = 6 \<and> unat (bs ! 5) < length ex_psbts
      then Some (ex_psbts ! unat (bs ! 5)) else None)"

definition ex_PSBT_serialize :: "psbt \<Rightarrow> bytes" where
  "ex_PSBT_serialize p =
     psbt_magic @ [case list_index ex_psbts p of None \<Rightarrow> 0xFF | Some i \<Rightarrow> of_nat i]"

text \<open>The value of the QR constant \<^verbatim>\<open>FORMAT_PMOFN\<close> in the concrete library.\<close>

definition ex_pmofn :: nat where
  "ex_pmofn = 1"

definition ex_lib :: lib where
  "ex_lib =
     \<lparr>PSBT_parse = ex_PSBT_parse, PSBT_serialize = ex_PSBT_serialize, PSBT_new = ex_PSBT_new,
      from_cbor = ex_from_cbor, to_cbor = (\<lambda>b. 0xD8 # b),
      base_decode = ex_base_decode, base_encode = (\<lambda>bs n. of_nat n # bs),
      FORMAT_PMOFN = ex_pmofn,
      script_type = ex_script_type, parse_multisig = ex_parse_multisig,
      p2wsh = (\<lambda>ws. 0x20 # ws), p2sh = (\<lambda>scr. 0xA9 # scr), p2wpkh = (\<lambda>k. 0x14 # k),
      address = (\<lambda>scr. ''address''),
      derive = ex_derive, key_of = (\<lambda>k. k), to_base58 = ex_to_base58,
      sign_with = ex_sign_with, t_tr = (\<lambda>s. s), satcomma = (\<lambda>a. fmt_d (nat a))\<rparr>"

text \<open>The signer that the construction returns for the first PSBT and the single
  signature wallet.\<close>

definition ex_signer :: signer where
  "ex_signer =
     \<lparr>s_wallet = ex_wallet, base_encoding = None, ur_type = None, qr_format = 0,
      s_psbt = ex_psbt_change_first, s_policy = Some ex_single_policy\<rparr>"

subsection \<open>Notions used to state the round trip through \<^verbatim>\<open>psbt_qr\<close>\<close>

text \<open>The encodings of the specification: the UR/CBOR envelope, raw binary, and base 64,
  58 or 43. \<open>spec_detect\<close> is the specification's decoding step: the attempts in their
  order, with the encoding that succeeded and the PSBT it gave. \<open>spec_reencode\<close> applies
  an encoding to serialized bytes, \<open>spec_decode_payload\<close> undoes it. \<open>emitted_encoding\<close>
  is the encoding of the payload that \<^verbatim>\<open>psbt_qr\<close> returns: the detected one, except that
  raw binary read with the QR format \<^verbatim>\<open>FORMAT_PMOFN\<close> comes back in base 64.\<close>

datatype encoding = Enc_UR | Enc_raw | Enc_base nat

definition spec_detect :: "lib \<Rightarrow> qr_data \<Rightarrow> (encoding \<times> psbt) option" where
  "spec_detect L psbt_data =
     (case psbt_data of
        UR ty cbor \<Rightarrow>
          (case from_cbor L cbor of
             None \<Rightarrow> None
           | Some d \<Rightarrow> map_option (Pair Enc_UR) (PSBT_parse L d))
      | _ \<Rightarrow>
          (let data = (case psbt_data of Str s \<Rightarrow> str_encode s | Bytes b \<Rightarrow> b | UR ty c \<Rightarrow> c)
           in case PSBT_parse L data of
                Some p \<Rightarrow> Some (Enc_raw, p)
              | None \<Rightarrow>
                  (case parse_base L data 64 of
                     Some p \<Rightarrow> Some (Enc_base 64, p)
                   | None \<Rightarrow>
                       (case parse_base L data 58 of
                          Some p \<Rightarrow> Some (Enc_base 58, p)
                        | None \<Rightarrow> map_option (Pair (Enc_base 43)) (parse_base L data 43)))))"

definition spec_reencode :: "lib \<Rightarrow> encoding \<Rightarrow> bytes \<Rightarrow> qr_data" where
  "spec_reencode L enc raw =
     (case enc of
        Enc_UR \<Rightarrow> UR (registry_name CRYPTO_PSBT) (to_cbor L raw)
      | Enc_raw \<Rightarrow> Bytes raw
      | Enc_base n \<Rightarrow> Str (bytes_decode (base_encode L raw n)))"

definition spec_decode_payload :: "lib \<Rightarrow> encoding \<Rightarrow> qr_data \<Rightarrow> bytes option" where
  "spec_decode_payload L enc payload =
     (case (enc, payload) of
        (Enc_UR, UR ty cbor) \<Rightarrow> from_cbor L cbor
      | (Enc_raw, Bytes b) \<Rightarrow> Some b
      | (Enc_base n, Str s) \<Rightarrow> base_decode L (str_encode s) n
      | _ \<Rightarrow> None)"

definition emitted_encoding :: "lib \<Rightarrow> nat \<Rightarrow> encoding \<Rightarrow> encoding" where
  "emitted_encoding L qr_fmt enc =
     (if enc = Enc_raw \<and> qr_fmt = FORMAT_PMOFN L then Enc_base 64 else enc)"

text \<open>The original decoded transaction: the bytes that the successful attempt of the
  decoding step handed to the PSBT parser (the content of the CBOR envelope, the data
  itself, or its base 64, 58 or 43 decoding).\<close>

definition spec_decoded_bytes :: "lib \<Rightarrow> qr_data \<Rightarrow> bytes option" where
  "spec_decoded_bytes L psbt_data =
     (case psbt_data of
        UR ty cbor \<Rightarrow>
          (case from_cbor L cbor of
             None \<Rightarrow> None
           | Some d \<Rightarrow> map_option (\<lambda>p. d) (PSBT_parse L d))
      | _ \<Rightarrow>
          (let data = (case psbt_data of Str s \<Rightarrow> str_encode s | Bytes b \<Rightarrow> b | UR ty c \<Rightarrow> c)
           in case PSBT_parse L data of
                Some p \<Rightarrow> Some data
              | None \<Rightarrow>
                  (case parse_base L data 64 of
                     Some p \<Rightarrow> base_decode L data 64
                   | None \<Rightarrow>
                       (case parse_base L data 58 of
                          Some p \<Rightarrow> base_decode L data 58
                        | None \<Rightarrow>
                            (case parse_base L data 43 of
                               Some p \<Rightarrow> base_decode L data 43
                             | None \<Rightarrow> None)))))"

subsection \<open>Notions used to state the properties of \<^verbatim>\<open>outputs()\<close>\<close>

text \<open>The value of an input's witness UTXO; the sum of the three class totals; the
  number of classified outputs; and the agreement of each class total with the amounts
  in its list.\<close>

definition utxo_value :: "scope \<Rightarrow> int" where
  "utxo_value inp = (case witness_utxo inp of None \<Rightarrow> 0 | Some u \<Rightarrow> tx_value u)"

definition classified_total :: "out_state \<Rightarrow> int" where
  "classified_total st = spend_amount st + self_amount st + change_amount st"

definition classified_count :: "out_state \<Rightarrow> nat" where
  "classified_count st =
     length (spend_list st) + length (self_transfer_list st) + length (change_list st)"

definition amounts_match :: "out_state \<Rightarrow> bool" where
  "amounts_match st =
     (spend_amount st = sum_list (map snd (spend_list st))
      \<and> self_amount st = sum_list (map snd (self_transfer_list st))
      \<and> change_amount st = sum_list (map snd (change_list st)))"

subsection \<open>Notions used to state the properties of the change test\<close>

text \<open>The change level of a derivation path: the first of its last two indices, the two
  that \<^verbatim>\<open>get_cosigners\<close> strips to find the account xpub ("last two indexes give pub
  from xpub").\<close>

definition spec_change_index :: "nat list \<Rightarrow> nat" where
  "spec_change_index d = last2 d ! 0"

text \<open>The signer that the construction returns for the multisig PSBT and wallet.\<close>

definition ex_multi_signer :: signer where
  "ex_multi_signer =
     \<lparr>s_wallet = ex_multi_wallet, base_encoding = None, ur_type = None, qr_format = 0,
      s_psbt = ex_psbt_multi, s_policy = Some ex_multi_policy\<rparr>"

section \<open>Properties of key.py\<close>

subsection \<open>Default derivation paths\<close>

declare fmt_d.simps [simp del]

lemma digit_char_not_h: "d < 10 \<Longrightarrow> digit_char d \<noteq> CHR ''h''"
proof
  assume d: "d < 10" and "digit_char d = CHR ''h''"
  then have "of_char (digit_char d) = (of_char (CHR ''h'') :: nat)" by simp
  with d show False by (simp add: digit_char_def)
qed

lemma replace_h_fmt_d: "replace_h (fmt_d n) = fmt_d n"
proof (induction n rule: fmt_d.induct)
  case (1 n)
  show ?case
  proof (cases "n < 10")
    case True
    then show ?thesis
      by (subst (1 2) fmt_d.simps) (simp add: replace_h_def digit_char_not_h)
  next
    case False
    have "n mod 10 < 10" by simp
    then have "digit_char (n mod 10) \<noteq> CHR ''h''" by (rule digit_char_not_h)
    with False 1 show ?thesis
      by (subst (1 2) fmt_d.simps) (simp add: replace_h_def)
  qed
qed

lemma digit_char_lits:
  "digit_char 2 = CHR ''2''" "digit_char 4 = CHR ''4''" "digit_char 6 = CHR ''6''"
  "digit_char 8 = CHR ''8''" "digit_char 9 = CHR ''9''"
  by code_simp+

lemma fmt_d_purposes:
  "fmt_d 44 = ''44''" "fmt_d 49 = ''49''" "fmt_d 84 = ''84''" "fmt_d 86 = ''86''"
  "fmt_d 48 = ''48''"
  by (simp_all add: fmt_d.simps[of 44] fmt_d.simps[of 49] fmt_d.simps[of 84]
      fmt_d.simps[of 86] fmt_d.simps[of 48] fmt_d.simps[of 4] fmt_d.simps[of 8]
      digit_char_lits)

lemma single_path_h:
  "map_of SINGLESIG_SCRIPT_PURPOSE st = Some p \<Longrightarrow>
   get_default_derivation False net a st =
     Inr (''m/'' @ fmt_d p @ ''h/'' @ fmt_d (bip32 net) @ ''h/'' @ fmt_d a @ ''h'')"
  by (simp add: get_default_derivation_def DER_SINGLE_def)

lemma multi_path_h:
  "get_default_derivation True net a st =
     Inr (''m/48h/'' @ fmt_d (bip32 net) @ ''h/'' @ fmt_d a @ ''h/2h'')"
  by (simp add: get_default_derivation_def DER_MULTI_def MULTISIG_SCRIPT_PURPOSE_def
      fmt_d_purposes)

lemma format_single_path:
  "format_derivation (spec_single_path (CHR ''h'') p c a) False =
     spec_single_path (CHR 0x27) (replace_h p) c a"
  using replace_h_fmt_d[of c] replace_h_fmt_d[of a]
  by (simp add: format_derivation_def spec_single_path_def replace_h_def
      HARDENED_STR_REPLACE_def)

lemma format_multi_path:
  "format_derivation (spec_multi_path (CHR ''h'') c a) False = spec_multi_path (CHR 0x27) c a"
  using replace_h_fmt_d[of c] replace_h_fmt_d[of a]
  by (simp add: format_derivation_def spec_single_path_def spec_multi_path_def
      replace_h_def HARDENED_STR_REPLACE_def)

lemma Key_init_single:
  assumes "map_of SINGLESIG_SCRIPT_PURPOSE st = Some p" and "fmt_d p = ps"
    and "replace_h ps = ps"
  shows "\<exists>k. Key_init False net a st = Inr k
           \<and> k_derivation k = spec_single_path (CHR ''h'') ps (bip32 net) a
           \<and> derivation_str k False = spec_single_path (CHR 0x27) ps (bip32 net) a"
proof -
  have d: "get_default_derivation False net a st
             = Inr (spec_single_path (CHR ''h'') ps (bip32 net) a)"
    using assms(2) by (simp add: single_path_h[OF assms(1)] spec_single_path_def)
  show ?thesis
    using format_single_path[of ps "bip32 net" a] assms(3)
    by (simp add: Key_init_def d derivation_str_def)
qed

lemma Key_init_multi:
  "\<exists>k. Key_init True net a st = Inr k
       \<and> k_derivation k = spec_multi_path (CHR ''h'') (bip32 net) a
       \<and> derivation_str k False = spec_multi_path (CHR 0x27) (bip32 net) a"
proof -
  have d: "get_default_derivation True net a ''p2wsh''
             = Inr (spec_multi_path (CHR ''h'') (bip32 net) a)"
    by (simp add: multi_path_h spec_multi_path_def spec_single_path_def)
  show ?thesis
    using format_multi_path[of "bip32 net" a]
    by (simp add: Key_init_def d derivation_str_def)
qed

text \<open>Claim C8. For every coin type \<open>c\<close> of the network and every account \<open>a\<close>, key
  construction succeeds and stores the default path \<open>m/44h/ch/ah\<close> for p2pkh,
  \<open>m/49h/ch/ah\<close> for p2sh-p2wpkh, \<open>m/84h/ch/ah\<close> for p2wpkh, \<open>m/86h/ch/ah\<close> for
  p2tr, and \<open>m/48h/ch/ah/2h\<close> whenever the multisig flag is set (whatever script type is
  passed); the key's own rendering of it, \<open>derivation_str\<close>, is the same path with the
  hardened marker written as an apostrophe: \<open>m/44'/c'/a'\<close> and so on.\<close>

theorem default_derivation_paths:
  "(\<exists>k. Key_init False net a ''p2pkh'' = Inr k
       \<and> k_derivation k = spec_single_path (CHR ''h'') ''44'' (bip32 net) a
       \<and> derivation_str k False = spec_single_path (CHR 0x27) ''44'' (bip32 net) a)
   \<and> (\<exists>k. Key_init False net a ''p2sh-p2wpkh'' = Inr k
       \<and> k_derivation k = spec_single_path (CHR ''h'') ''49'' (bip32 net) a
       \<and> derivation_str k False = spec_single_path (CHR 0x27) ''49'' (bip32 net) a)
   \<and> (\<exists>k. Key_init False net a ''p2wpkh'' = Inr k
       \<and> k_derivation k = spec_single_path (CHR ''h'') ''84'' (bip32 net) a
       \<and> derivation_str k False = spec_single_path (CHR 0x27) ''84'' (bip32 net) a)
   \<and> (\<exists>k. Key_init False net a ''p2tr'' = Inr k
       \<and> k_derivation k = spec_single_path (CHR ''h'') ''86'' (bip32 net) a
       \<and> derivation_str k False = spec_single_path (CHR 0x27) ''86'' (bip32 net) a)
   \<and> (\<exists>k. Key_init True net a st = Inr k
       \<and> k_derivation k = spec_multi_path (CHR ''h'') (bip32 net) a
       \<and> derivation_str k False = spec_multi_path (CHR 0x27) (bip32 net) a)"
proof -
  have p1: "map_of SINGLESIG_SCRIPT_PURPOSE ''p2pkh'' = Some 44"
    and p2: "map_of SINGLESIG_SCRIPT_PURPOSE ''p2sh-p2wpkh'' = Some 49"
    and p3: "map_of SINGLESIG_SCRIPT_PURPOSE ''p2wpkh'' = Some 84"
    and p4: "map_of SINGLESIG_SCRIPT_PURPOSE ''p2tr'' = Some 86"
    by (simp_all add: SINGLESIG_SCRIPT_PURPOSE_def)
  show ?thesis
    using Key_init_single[OF p1 fmt_d_purposes(1), of net a]
      Key_init_single[OF p2 fmt_d_purposes(2), of net a]
      Key_init_single[OF p3 fmt_d_purposes(3), of net a]
      Key_init_single[OF p4 fmt_d_purposes(4), of net a]
      Key_init_multi[of net a st]
    by (simp add: replace_h_def)
qed

subsection \<open>The final-word search\<close>


lemma list_index_Some: "list_index xs x = Some k \<Longrightarrow> k < length xs \<and> xs ! k = x"
  by (induction xs arbitrary: k) (auto split: if_splits)

lemma list_index_mem: "x \<in> set xs \<Longrightarrow> \<exists>k. list_index xs x = Some k"
  by (induction xs) auto

lemma list_index_nth: "distinct xs \<Longrightarrow> k < length xs \<Longrightarrow> list_index xs (xs ! k) = Some k"
proof (induction xs arbitrary: k)
  case Nil
  then show ?case by simp
next
  case (Cons y ys)
  show ?case
  proof (cases k)
    case 0
    then show ?thesis by simp
  next
    case (Suc j)
    with Cons.prems have "j < length ys" "ys ! j \<in> set ys" "y \<notin> set ys" "distinct ys"
      by auto
    with Cons.IH[of j] Suc show ?thesis by auto
  qed
qed

lemma word_indices_ok:
  "set ws \<subseteq> set wl \<Longrightarrow>
   \<exists>is. word_indices wl ws = Inr is \<and> length is = length ws \<and> (\<forall>i\<in>set is. i < length wl)"
proof (induction ws)
  case Nil
  then show ?case by simp
next
  case (Cons w ws)
  then obtain ixs where ixs: "word_indices wl ws = Inr ixs" "length ixs = length ws"
    "\<forall>i\<in>set ixs. i < length wl" by auto
  from Cons.prems obtain k where k: "list_index wl w = Some k"
    using list_index_mem[of w wl] by auto
  with list_index_Some[OF k] ixs show ?case by simp
qed

lemma word_indices_snoc:
  "word_indices wl ws = Inr is \<Longrightarrow> list_index wl w = Some j \<Longrightarrow>
   word_indices wl (ws @ [w]) = Inr (is @ [j])"
  by (induction ws arbitrary: "is") (auto split: option.splits sum.splits)

lemma accumulate_snoc: "accumulate (is @ [j]) = accumulate is * 2048 + j"
  by (simp add: accumulate_def push_bit_eq_mult)

lemma accumulate_bound: "\<forall>i\<in>set is. i < 2048 \<Longrightarrow> accumulate is < 2048 ^ length is"
proof (induction "is" rule: rev_induct)
  case Nil
  then show ?case by (simp add: accumulate_def)
next
  case (snoc j js)
  then have a: "accumulate js + 1 \<le> 2048 ^ length js" and j: "j < 2048" by auto
  have "accumulate js * 2048 + j < (accumulate js + 1) * 2048" using j by simp
  also have "\<dots> \<le> 2048 ^ length js * 2048" using a by (rule mult_le_mono1)
  finally show ?case by (simp add: accumulate_snoc)
qed

lemma from_bytes_snoc: "from_bytes (bs @ [b]) = from_bytes bs * 256 + unat b"
  by (simp add: from_bytes_def)

lemma from_bytes_bound: "from_bytes bs < 256 ^ length bs"
proof (induction bs rule: rev_induct)
  case Nil
  then show ?case by (simp add: from_bytes_def)
next
  case (snoc b bs)
  have b: "unat b < 256" using unsigned_less[of b, where ?'a = nat] by simp
  from snoc have a: "from_bytes bs + 1 \<le> 256 ^ length bs" by simp
  have "from_bytes bs * 256 + unat b < (from_bytes bs + 1) * 256" using b by simp
  also have "\<dots> \<le> 256 ^ length bs * 256" using a by (rule mult_le_mono1)
  finally show ?case by (simp add: from_bytes_snoc)
qed

lemma candidates_loop_map:
  "\<forall>i\<in>set is. f i = Inr (g i) \<Longrightarrow> candidates_loop f is = Inr (map g is)"
  by (induction "is") auto


lemma pow256: "(256::nat) ^ b = 2 ^ (8 * b)"
proof -
  have "(256::nat) = 2 ^ 8" by simp
  then show ?thesis by (simp only: power_mult)
qed

text \<open>One round of the loop, with all the sizes as parameters.\<close>

lemma final_word_round:
  assumes wl: "length wl = 2048" and H: "\<forall>m. length (H m) = 32"
    and accu: "accu < 2 ^ (11 * n)" and T: "T = 11 * n + N" "T = 8 * B"
    and NC: "N + C = 11" and i: "i < 2 ^ N"
  shows "\<exists>bs ck. to_bytes (accu * 2 ^ N + i) B = Inr bs
           \<and> ck = from_bytes (H bs) div 2 ^ (256 - C) \<and> ck < 2 ^ C
           \<and> i * 2 ^ C + ck < 2048
           \<and> final_word wl H accu T N C i = Inr (wl ! (i * 2 ^ C + ck))"
proof -
  have "accu + 1 \<le> 2 ^ (11 * n)" using accu by simp
  then have "(accu + 1) * 2 ^ N \<le> 2 ^ (11 * n) * 2 ^ N" by (rule mult_le_mono1)
  moreover have "accu * 2 ^ N + i < (accu + 1) * 2 ^ N" using i by simp
  ultimately have "accu * 2 ^ N + i < 2 ^ T" by (simp add: T(1) power_add)
  then have fit: "accu * 2 ^ N + i < 256 ^ B" by (simp add: pow256 T(2)[symmetric])
  define bs where "bs = map (\<lambda>k. of_nat ((accu * 2 ^ N + i) div 256 ^ k) :: 8 word) (rev [0..<B])"
  have tb: "to_bytes (accu * 2 ^ N + i) B = Inr bs"
    using fit by (simp add: to_bytes_def bs_def)
  define ck where "ck = from_bytes (H bs) div 2 ^ (256 - C)"
  have C: "C \<le> 256" using NC by simp
  have "from_bytes (H bs) < 256 ^ 32" using from_bytes_bound[of "H bs"] H by simp
  also have "(256::nat) ^ 32 = 2 ^ (256 - C) * 2 ^ C"
    using C by (simp add: pow256 power_add[symmetric])
  finally have ck: "ck < 2 ^ C"
    unfolding ck_def by (simp add: less_mult_imp_div_less mult.commute)
  have "i * 2 ^ C + ck < (i + 1) * 2 ^ C" using ck by simp
  also have "\<dots> \<le> 2 ^ N * 2 ^ C" using i by (intro mult_le_mono1) simp
  also have "\<dots> = 2048" using NC by (simp add: power_add[symmetric])
  finally have j: "i * 2 ^ C + ck < 2048" .
  have B: "T div 8 = B" using T(2) by simp
  have "final_word wl H accu T N C i = Inr (wl ! (i * 2 ^ C + ck))"
    using tb j wl by (simp add: final_word_def B push_bit_eq_mult drop_bit_eq_div ck_def Let_def)
  with tb ck j show ?thesis unfolding ck_def by blast
qed


lemma valid_candidate:
  assumes wl: "length wl = 2048" and dist: "distinct wl"
    and ixs: "word_indices wl words = Inr ixs" and len: "length words = n"
    and NC: "N + C = 11" and spec: "11 * Suc n div 33 = C" "11 * Suc n - C = 8 * B"
    and tb: "to_bytes (accumulate ixs * 2 ^ N + i) B = Inr bs"
    and ck: "ck = from_bytes (H bs) div 2 ^ (256 - C)" "ck < 2 ^ C"
    and j: "i * 2 ^ C + ck < 2048"
  shows "spec_checksum_valid wl H (words @ [wl ! (i * 2 ^ C + ck)])"
proof -
  let ?j = "i * 2 ^ C + ck"
  have "list_index wl (wl ! ?j) = Some ?j"
    using dist j wl by (intro list_index_nth) simp_all
  then have wi: "word_indices wl (words @ [wl ! ?j]) = Inr (ixs @ [?j])"
    using ixs by (rule word_indices_snoc[rotated])
  have p: "(2048::nat) = 2 ^ N * 2 ^ C" using NC by (simp add: power_add[symmetric])
  have acc: "accumulate (ixs @ [?j]) = (accumulate ixs * 2 ^ N + i) * 2 ^ C + ck"
    by (simp add: accumulate_snoc p algebra_simps)
  have d: "drop_bit C (accumulate (ixs @ [?j])) = accumulate ixs * 2 ^ N + i"
    using ck(2) by (simp add: acc drop_bit_eq_div)
  have t: "take_bit C (accumulate (ixs @ [?j])) = ck"
    using ck(2) by (simp add: acc take_bit_eq_mod)
  have s1: "(11 + 11 * n) div 33 = C" and s2: "11 + 11 * n - C = 8 * B"
    using spec by simp_all
  have d': "accumulate (ixs @ [?j]) div 2 ^ C = accumulate ixs * 2 ^ N + i"
    using d by (simp add: drop_bit_eq_div)
  show ?thesis
    unfolding spec_checksum_valid_def wi
    by (simp add: len s1 s2 d' t tb drop_bit_eq_div Let_def ck(1)[symmetric])
qed

lemma candidates_generic:
  assumes wl: "length wl = 2048" and dist: "distinct wl" and H: "\<forall>m. length (H m) = 32"
    and ixs: "word_indices wl words = Inr ixs" "length ixs = n" "\<forall>i\<in>set ixs. i < 2048"
    and len: "length words = n"
    and T: "T = 11 * n + N" "T = 8 * B" and NC: "N + C = 11"
    and spec: "11 * Suc n div 33 = C" "11 * Suc n - C = 8 * B"
  shows "\<exists>cands. candidates_loop (final_word wl H (accumulate ixs) T N C) [0..<2 ^ N] = Inr cands
           \<and> length cands = 2 ^ N \<and> distinct cands
           \<and> (\<forall>w\<in>set cands. spec_checksum_valid wl H (words @ [w]))"
proof -
  define accu where "accu = accumulate ixs"
  have "accu < 2048 ^ n" unfolding accu_def using accumulate_bound[OF ixs(3)] ixs(2) by simp
  also have "(2048::nat) ^ n = 2 ^ (11 * n)"
  proof -
    have "(2048::nat) = 2 ^ 11" by simp
    then show ?thesis by (simp only: power_mult)
  qed
  finally have accu: "accu < 2 ^ (11 * n)" .
  define g where "g i = (case final_word wl H accu T N C i of Inr w \<Rightarrow> w | Inl e \<Rightarrow> [])" for i
  have round: "\<exists>bs ck. to_bytes (accu * 2 ^ N + i) B = Inr bs
           \<and> ck = from_bytes (H bs) div 2 ^ (256 - C) \<and> ck < 2 ^ C
           \<and> i * 2 ^ C + ck < 2048
           \<and> final_word wl H accu T N C i = Inr (g i) \<and> g i = wl ! (i * 2 ^ C + ck)"
    if "i < 2 ^ N" for i
    using final_word_round[OF wl H accu T NC that] unfolding g_def by fastforce
  have loop: "candidates_loop (final_word wl H accu T N C) [0..<2 ^ N] = Inr (map g [0..<2 ^ N])"
  proof (rule candidates_loop_map, rule ballI)
    fix i assume "i \<in> set [0..<2 ^ N]"
    then have "i < 2 ^ N" by simp
    from round[OF this] show "final_word wl H accu T N C i = Inr (g i)" by blast
  qed
  have inj: "inj_on g (set [0..<2 ^ N])"
  proof (rule inj_onI)
    fix a b assume a: "a \<in> set [0..<2 ^ N]" and b: "b \<in> set [0..<2 ^ N]" and eq: "g a = g b"
    from a round[of a] obtain cka where cka: "cka < 2 ^ C" "a * 2 ^ C + cka < 2048"
      "g a = wl ! (a * 2 ^ C + cka)" by auto
    from b round[of b] obtain ckb where ckb: "ckb < 2 ^ C" "b * 2 ^ C + ckb < 2048"
      "g b = wl ! (b * 2 ^ C + ckb)" by auto
    have "a * 2 ^ C + cka = b * 2 ^ C + ckb"
      using eq cka ckb dist wl by (simp add: nth_eq_iff_index_eq)
    then have "(a * 2 ^ C + cka) div 2 ^ C = (b * 2 ^ C + ckb) div 2 ^ C" by simp
    then show "a = b" using cka(1) ckb(1) by simp
  qed
  have valid: "spec_checksum_valid wl H (words @ [w])" if "w \<in> set (map g [0..<2 ^ N])" for w
  proof -
    from that obtain i where i: "i < 2 ^ N" "w = g i" by auto
    from round[OF i(1)] obtain bs ck where r: "to_bytes (accu * 2 ^ N + i) B = Inr bs"
      "ck = from_bytes (H bs) div 2 ^ (256 - C)" "ck < 2 ^ C" "i * 2 ^ C + ck < 2048"
      "g i = wl ! (i * 2 ^ C + ck)" by blast
    show ?thesis
      using valid_candidate[where H = H, OF wl dist ixs(1) len NC spec r(1)[unfolded accu_def] r(2,3,4)]
      by (simp add: i(2) r(5))
  qed
  show ?thesis
    using loop inj valid unfolding accu_def by (auto simp: distinct_map)
qed


text \<open>Claim C4. Let the word list have 2048 distinct words and the hash function return
  32-byte digests. For every list of exactly 11 or 23 words of the list,
  \<open>get_final_word_candidates\<close> returns exactly \<open>2 ^ needed_bits\<close> words, where
  \<open>needed_bits = (len * 11 + 11) div 33 * 32 - len * 11\<close>: 128 words for 11 and 8 for
  23; they are pairwise different, and each of them, appended to the input, gives a
  mnemonic whose checksum field equals the top checksum bits of the digest of its
  entropy. For any other number of words the function fails with the
  \<open>ValueError\<close> "must provide 11 or 23 words".\<close>

theorem final_word_candidates:
  assumes wl: "length WORDLIST = 2048" and dist: "distinct WORDLIST"
    and H: "\<forall>m. length (sha256 m) = 32"
  shows "((length words = 11 \<or> length words = 23) \<and> set words \<subseteq> set WORDLIST \<longrightarrow>
           (\<exists>cands. get_final_word_candidates WORDLIST sha256 words = Inr cands
              \<and> length cands = 2 ^ ((length words * 11 + 11) div 33 * 32 - length words * 11)
              \<and> length cands = (if length words = 11 then 128 else 8)
              \<and> distinct cands
              \<and> (\<forall>w\<in>set cands. spec_checksum_valid WORDLIST sha256 (words @ [w]))))
       \<and> (length words \<noteq> 11 \<and> length words \<noteq> 23 \<longrightarrow>
            get_final_word_candidates WORDLIST sha256 words
              = Inl (ValueError ''must provide 11 or 23 words''))"
proof (intro conjI impI)
  assume "length words \<noteq> 11 \<and> length words \<noteq> 23"
  then show "get_final_word_candidates WORDLIST sha256 words
              = Inl (ValueError ''must provide 11 or 23 words'')"
    by (simp add: get_final_word_candidates_def)
next
  assume a: "(length words = 11 \<or> length words = 23) \<and> set words \<subseteq> set WORDLIST"
  then obtain ixs where ixs: "word_indices WORDLIST words = Inr ixs"
    "length ixs = length words" "\<forall>i\<in>set ixs. i < 2048"
    using word_indices_ok[of words WORDLIST] wl by auto
  from a consider "length words = 11" | "length words = 23" by blast
  then show "\<exists>cands. get_final_word_candidates WORDLIST sha256 words = Inr cands
              \<and> length cands = 2 ^ ((length words * 11 + 11) div 33 * 32 - length words * 11)
              \<and> length cands = (if length words = 11 then 128 else 8)
              \<and> distinct cands
              \<and> (\<forall>w\<in>set cands. spec_checksum_valid WORDLIST sha256 (words @ [w]))"
  proof cases
    case 1
    have "\<exists>cands. candidates_loop (final_word WORDLIST sha256 (accumulate ixs) 128 7 4) [0..<2 ^ 7]
               = Inr cands \<and> length cands = 2 ^ 7 \<and> distinct cands
             \<and> (\<forall>w\<in>set cands. spec_checksum_valid WORDLIST sha256 (words @ [w]))"
      using ixs(2) 1
      by (intro candidates_generic[where n = 11 and B = 16, OF wl dist H ixs(1) _ ixs(3)])
         simp_all
    then show ?thesis
      using 1 ixs(1) by (simp add: get_final_word_candidates_def)
  next
    case 2
    have "\<exists>cands. candidates_loop (final_word WORDLIST sha256 (accumulate ixs) 256 3 8) [0..<2 ^ 3]
               = Inr cands \<and> length cands = 2 ^ 3 \<and> distinct cands
             \<and> (\<forall>w\<in>set cands. spec_checksum_valid WORDLIST sha256 (words @ [w]))"
      using ixs(2) 2
      by (intro candidates_generic[where n = 23 and B = 32, OF wl dist H ixs(1) _ ixs(3)])
         simp_all
    then show ?thesis
      using 2 ixs(1) by (simp add: get_final_word_candidates_def)
  qed
qed

theorem final_word_candidates_witness:
  "length example_wordlist = 2048 \<and> distinct example_wordlist
   \<and> length example_prefix = 11 \<and> set example_prefix \<subseteq> set example_wordlist
   \<and> (\<exists>cands. get_final_word_candidates example_wordlist example_hash example_prefix = Inr cands
          \<and> length cands = 128 \<and> distinct cands
          \<and> list_all (\<lambda>w. spec_checksum_valid example_wordlist example_hash (example_prefix @ [w]))
                cands)
   \<and> get_final_word_candidates example_wordlist example_hash (replicate 12 ''a'')
       = Inl (ValueError ''must provide 11 or 23 words'')"
proof -
  have l: "length example_wordlist = 2048" by (simp add: example_wordlist_def)
  have d: "distinct example_wordlist"
    by (simp add: example_wordlist_def distinct_map inj_on_def)
  have h: "\<forall>m. length (example_hash m) = 32" by (simp add: example_hash_def)
  have "''a'' = replicate (Suc 0) (CHR ''a'')" by simp
  then have m: "''a'' \<in> set example_wordlist"
    unfolding example_wordlist_def set_map by (intro image_eqI[where x = 0]) simp_all
  have p: "length example_prefix = 11" "set example_prefix \<subseteq> set example_wordlist"
    using m by (simp_all add: example_prefix_def)
  show ?thesis
    using final_word_candidates[OF l d h, of example_prefix]
      final_word_candidates[OF l d h, of "replicate 12 ''a''"] l d p
    by (auto simp: list_all_iff)
qed

section \<open>Properties of psbt.py\<close>

text \<open>The definitions of the concrete library and wallets, for evaluation.\<close>

lemmas ex_defs = ex_lib_def ex_script_type_def ex_parse_multisig_def ex_derive_def
  ex_to_base58_def ex_base_decode_def ex_from_cbor_def empty_scope_def ex_PSBT_new_def
  ex_sign_with_def h84_def h48_def h0_def h1_def h2_def ex_single_policy_def ex_wallet_def
  ex_wallet_no_origin_def ex_input_def ex_change_out_def ex_change_txout_def
  ex_spend_txout_def ex_psbt_change_first_def ex_psbt_spend_first_def ex_psbt_mixed_def
  ex_origin_A_def ex_origin_B_def ex_multi_policy_def ex_multi_wallet_def
  ex_multi_wallet_no_origin_def ex_multi_derivs_def ex_multi_input_def
  ex_multi_change_out_def ex_psbt_multi_def ex_psbts_def psbt_magic_def ex_PSBT_parse_def
  ex_PSBT_serialize_def ex_pmofn_def

subsection \<open>Cosigner matching\<close>

lemma find_xpub_Some:
  "find_xpub L pk der xpubs = Some s \<Longrightarrow>
   \<exists>x\<in>set xpubs. xpub_matches L pk der x \<and> s = to_base58 L (fst x)"
  by (induction xpubs) (auto simp: xpub_matches_def split: if_splits)

lemma cosigners_loop_missing:
  "\<exists>pk\<in>set pubkeys. map_of derivations pk = None \<Longrightarrow>
   cosigners_loop L pubkeys derivations xpubs acc = Inl (ValueError ''missing derivation'')"
  by (induction pubkeys arbitrary: acc) (auto split: option.splits)

lemma cosigners_loop_all:
  "\<forall>pk\<in>set pubkeys. map_of derivations pk \<noteq> None \<Longrightarrow>
   cosigners_loop L pubkeys derivations xpubs acc
     = Inr (acc @ spec_matches L pubkeys derivations xpubs)"
  by (induction pubkeys arbitrary: acc)
     (auto simp: spec_matches_def matched_def split: option.splits)

lemma length_map_filter_le: "length (List.map_filter f xs) \<le> length xs"
  by (induction xs) (auto split: option.splits)

lemma map_filter_full:
  "length (List.map_filter f xs) = length xs \<Longrightarrow>
   (\<forall>x\<in>set xs. f x \<noteq> None) \<and> List.map_filter f xs = map (\<lambda>x. the (f x)) xs"
proof (induction xs)
  case Nil
  then show ?case by simp
next
  case (Cons x xs)
  show ?case
  proof (cases "f x")
    case None
    with Cons.prems length_map_filter_le[of f xs] show ?thesis
      by simp
  next
    case (Some y)
    with Cons show ?thesis by simp
  qed
qed

lemma map_filter_short:
  "\<exists>x\<in>set xs. f x = None \<Longrightarrow> length (List.map_filter f xs) \<noteq> length xs"
  using map_filter_full[of f xs] by blast


text \<open>Claim C5. \<open>get_cosigners\<close> fails with the \<open>ValueError\<close> "missing derivation"
  whenever some public key has no derivation entry. When every public key has one, it
  fails with the \<open>ValueError\<close> "cannot get all cosigners" whenever the number of matches
  found differs from the number of public keys, and returns the sorted list of the
  matches otherwise. Every list it returns is sorted, has one entry per public key, is
  the sorted list of the base58 strings of the first matching xpub of each public key,
  and each public key has a derivation entry and an xpub that matches it in
  fingerprint, origin path and derived key.\<close>

theorem get_cosigners_result:
  "((\<exists>pk\<in>set pubkeys. map_of derivations pk = None) \<longrightarrow>
      get_cosigners L pubkeys derivations xpubs = Inl (ValueError ''missing derivation''))
   \<and> ((\<forall>pk\<in>set pubkeys. map_of derivations pk \<noteq> None) \<longrightarrow>
      get_cosigners L pubkeys derivations xpubs =
        (if length (spec_matches L pubkeys derivations xpubs) \<noteq> length pubkeys
         then Inl (ValueError ''cannot get all cosigners'')
         else Inr (sort (spec_matches L pubkeys derivations xpubs))))
   \<and> (\<forall>cs. get_cosigners L pubkeys derivations xpubs = Inr cs \<longrightarrow>
      sorted cs \<and> length cs = length pubkeys
      \<and> cs = sort (map (\<lambda>pk. the (matched L derivations xpubs pk)) pubkeys)
      \<and> (\<forall>pk\<in>set pubkeys. \<exists>der x.
             map_of derivations pk = Some der \<and> x \<in> set xpubs \<and> xpub_matches L pk der x
             \<and> matched L derivations xpubs pk = Some (to_base58 L (fst x))
             \<and> to_base58 L (fst x) \<in> set cs))"
proof (intro conjI impI allI)
  assume "\<exists>pk\<in>set pubkeys. map_of derivations pk = None"
  then show "get_cosigners L pubkeys derivations xpubs = Inl (ValueError ''missing derivation'')"
    by (simp add: get_cosigners_def cosigners_loop_missing)
next
  assume "\<forall>pk\<in>set pubkeys. map_of derivations pk \<noteq> None"
  then show "get_cosigners L pubkeys derivations xpubs =
        (if length (spec_matches L pubkeys derivations xpubs) \<noteq> length pubkeys
         then Inl (ValueError ''cannot get all cosigners'')
         else Inr (sort (spec_matches L pubkeys derivations xpubs)))"
    by (simp add: get_cosigners_def cosigners_loop_all)
next
  fix cs
  assume ok: "get_cosigners L pubkeys derivations xpubs = Inr cs"
  have all: "\<forall>pk\<in>set pubkeys. map_of derivations pk \<noteq> None"
  proof (rule ccontr)
    assume "\<not> ?thesis"
    then have "\<exists>pk\<in>set pubkeys. map_of derivations pk = None" by simp
    with ok show False by (simp add: get_cosigners_def cosigners_loop_missing)
  qed
  let ?ms = "spec_matches L pubkeys derivations xpubs"
  from ok all have len: "length ?ms = length pubkeys" and cs: "cs = sort ?ms"
    by (auto simp: get_cosigners_def cosigners_loop_all split: if_splits)
  from map_filter_full[of "matched L derivations xpubs" pubkeys] len
  have full: "\<forall>pk\<in>set pubkeys. matched L derivations xpubs pk \<noteq> None"
    and ms: "?ms = map (\<lambda>pk. the (matched L derivations xpubs pk)) pubkeys"
    by (simp_all add: spec_matches_def)
  have each: "\<exists>der x. map_of derivations pk = Some der \<and> x \<in> set xpubs
                 \<and> xpub_matches L pk der x
                 \<and> matched L derivations xpubs pk = Some (to_base58 L (fst x))
                 \<and> to_base58 L (fst x) \<in> set cs" if pk: "pk \<in> set pubkeys" for pk
  proof -
    from all pk obtain der where der: "map_of derivations pk = Some der" by auto
    from full pk der obtain s where s: "find_xpub L pk der xpubs = Some s"
      by (auto simp: matched_def)
    from find_xpub_Some[OF s] obtain x where x: "x \<in> set xpubs" "xpub_matches L pk der x"
      "s = to_base58 L (fst x)" by blast
    have m: "matched L derivations xpubs pk = Some s" using der s by (simp add: matched_def)
    then have "s \<in> set ?ms" using pk by (force simp: ms)
    then have "s \<in> set cs" by (simp add: cs)
    with der x m show ?thesis by blast
  qed
  show "sorted cs" by (simp add: cs)
  show "length cs = length pubkeys" by (simp add: cs len)
  show "cs = sort (map (\<lambda>pk. the (matched L derivations xpubs pk)) pubkeys)"
    using cs ms by simp
  show "\<forall>pk\<in>set pubkeys. \<exists>der x.
             map_of derivations pk = Some der \<and> x \<in> set xpubs \<and> xpub_matches L pk der x
             \<and> matched L derivations xpubs pk = Some (to_base58 L (fst x))
             \<and> to_base58 L (fst x) \<in> set cs"
    using each by blast
qed


theorem get_cosigners_result_witness:
  "get_cosigners ex_lib [[0x23], [0x13]] (ex_multi_derivs 0 3)
       [([0x10], ex_origin_A), ([0x20], ex_origin_B)] = Inr [''xpubA'', ''xpubB'']
   \<and> get_cosigners ex_lib [[0x23], [0x13]] (tl (ex_multi_derivs 0 3))
       [([0x10], ex_origin_A), ([0x20], ex_origin_B)] = Inl (ValueError ''missing derivation'')
   \<and> get_cosigners ex_lib [[0x23], [0x13]] (ex_multi_derivs 0 3)
       [([0x10], ex_origin_A)] = Inl (ValueError ''cannot get all cosigners'')"
proof -
  let ?pks = "[[0x23], [0x13]] :: pubkey list"
  let ?xs = "[([0x10], ex_origin_A), ([0x20], ex_origin_B)] :: (hdkey \<times> derivation_path) list"
  have all: "\<forall>pk\<in>set ?pks. map_of (ex_multi_derivs 0 3) pk \<noteq> None"
    by (simp add: ex_defs)
  have m2: "spec_matches ex_lib ?pks (ex_multi_derivs 0 3) ?xs = [''xpubB'', ''xpubA'']"
    by (simp add: spec_matches_def matched_def ex_defs all_but_last2_def last2_def)
  have m1: "spec_matches ex_lib ?pks (ex_multi_derivs 0 3) [([0x10], ex_origin_A)] = [''xpubA'']"
    by (simp add: spec_matches_def matched_def ex_defs all_but_last2_def last2_def)
  have miss: "\<exists>pk\<in>set ?pks. map_of (tl (ex_multi_derivs 0 3)) pk = None"
    by (simp add: ex_defs)
  have r1: "get_cosigners ex_lib ?pks (ex_multi_derivs 0 3) ?xs = Inr [''xpubA'', ''xpubB'']"
    using get_cosigners_result[of ?pks "ex_multi_derivs 0 3" ex_lib ?xs] all m2 by simp
  have r2: "get_cosigners ex_lib ?pks (tl (ex_multi_derivs 0 3)) ?xs
              = Inl (ValueError ''missing derivation'')"
    using get_cosigners_result[of ?pks "tl (ex_multi_derivs 0 3)" ex_lib ?xs] miss by blast
  have r3: "get_cosigners ex_lib ?pks (ex_multi_derivs 0 3) [([0x10], ex_origin_A)]
              = Inl (ValueError ''cannot get all cosigners'')"
    using get_cosigners_result[of ?pks "ex_multi_derivs 0 3" ex_lib "[([0x10], ex_origin_A)]"]
      all m1 by simp
  from r1 r2 r3 show ?thesis by simp
qed

subsection \<open>Validation of the inputs at construction\<close>

lemma policy_loop_Inr:
  "policy_loop L xpubs ins pol = Inr r \<Longrightarrow>
   (\<forall>a\<in>set ins. \<exists>q. input_policy L xpubs a = Inr q \<and> r = Some q)
   \<and> (pol \<noteq> None \<longrightarrow> r = pol)"
proof (induction ins arbitrary: pol)
  case Nil
  then show ?case by simp
next
  case (Cons a ins)
  from Cons.prems obtain q where q: "input_policy L xpubs a = Inr q"
    by (cases "input_policy L xpubs a") auto
  show ?case
  proof (cases pol)
    case None
    with Cons.prems q have "policy_loop L xpubs ins (Some q) = Inr r" by simp
    from Cons.IH[OF this] q None show ?thesis by auto
  next
    case (Some p)
    with Cons.prems q have pq: "p = q" and "policy_loop L xpubs ins pol = Inr r"
      by (auto split: if_splits)
    from Cons.IH[OF this(2)] q Some pq show ?thesis by auto
  qed
qed

lemma policy_loop_Inl:
  "policy_loop L xpubs ins pol = Inl e \<Longrightarrow>
   e = ValueError ''Unable to get policy'' \<or> e = ValueError ''mixed inputs in the tx''"
  by (induction ins arbitrary: pol) (auto split: sum.splits option.splits if_splits)

lemma policy_loop_Inl_all_ok:
  "policy_loop L xpubs ins pol = Inl e \<Longrightarrow>
   \<forall>a\<in>set ins. \<exists>q. input_policy L xpubs a = Inr q \<Longrightarrow>
   e = ValueError ''mixed inputs in the tx''"
  by (induction ins arbitrary: pol) (auto split: sum.splits option.splits if_splits)

lemma xpubs_of_cong:
  "p_xpubs (s_psbt s) = p_xpubs (s_psbt s') \<Longrightarrow> s_wallet s = s_wallet s' \<Longrightarrow>
   xpubs_of s = xpubs_of s'"
  by (simp add: xpubs_of_def)

lemma init_policy_loop_Inl:
  assumes "parse_psbt_data L qf data = Inr (p, be, ur)"
    and "xpubs_of \<lparr>s_wallet = wal, base_encoding = be, ur_type = ur, qr_format = qf,
                   s_psbt = p, s_policy = None\<rparr> = Inr xpubs"
    and "policy_loop L xpubs (inputs p) None = Inl e"
  shows "PSBTSigner_init L wal data qf = Inl e"
  using assms by (simp add: PSBTSigner_init_def)

text \<open>Claim C2. Take a PSBT that parses and for which the xpubs are found, and whose
  inputs yield two different policies. Then the construction of a \<open>PSBTSigner\<close> from
  it, and from any PSBT with the same inputs in another order, ends with an exception
  and never returns a signer: the \<open>ValueError\<close> "mixed inputs in the tx", or "Unable to
  get policy" when some other input yields no policy and is reached first. When every
  input yields a policy the exception is "mixed inputs in the tx", whatever the order
  of the inputs.\<close>

theorem mixed_inputs_rejected:
  assumes parse: "parse_psbt_data L qf data = Inr (p, be, ur)"
    and xp: "xpubs_of \<lparr>s_wallet = wal, base_encoding = be, ur_type = ur, qr_format = qf,
                       s_psbt = p, s_policy = None\<rparr> = Inr xpubs"
    and two: "\<exists>a\<in>set (inputs p). \<exists>b\<in>set (inputs p). \<exists>pa pb.
                input_policy L xpubs a = Inr pa \<and> input_policy L xpubs b = Inr pb \<and> pa \<noteq> pb"
    and parse': "parse_psbt_data L qf data' = Inr (p', be', ur')"
    and perm: "mset (inputs p') = mset (inputs p)" and same: "p_xpubs p' = p_xpubs p"
  shows "(\<exists>e. PSBTSigner_init L wal data' qf = Inl e
            \<and> (e = ValueError ''mixed inputs in the tx'' \<or> e = ValueError ''Unable to get policy''))
         \<and> ((\<forall>a\<in>set (inputs p). \<exists>q. input_policy L xpubs a = Inr q) \<longrightarrow>
              PSBTSigner_init L wal data' qf = Inl (ValueError ''mixed inputs in the tx''))"
proof -
  have set_eq: "set (inputs p') = set (inputs p)" using perm by (rule mset_eq_setD)
  have "xpubs_of \<lparr>s_wallet = wal, base_encoding = be', ur_type = ur', qr_format = qf,
                   s_psbt = p', s_policy = None\<rparr>
          = xpubs_of \<lparr>s_wallet = wal, base_encoding = be, ur_type = ur, qr_format = qf,
                       s_psbt = p, s_policy = None\<rparr>"
    by (rule xpubs_of_cong) (simp_all add: same)
  with xp have xp': "xpubs_of \<lparr>s_wallet = wal, base_encoding = be', ur_type = ur',
                        qr_format = qf, s_psbt = p', s_policy = None\<rparr> = Inr xpubs"
    by simp
  have not_ok: "policy_loop L xpubs (inputs p') None \<noteq> Inr r" for r
  proof
    assume "policy_loop L xpubs (inputs p') None = Inr r"
    from policy_loop_Inr[OF this] set_eq
    have "\<forall>a\<in>set (inputs p). \<exists>q. input_policy L xpubs a = Inr q \<and> r = Some q" by simp
    moreover from two obtain a b pa pb where ab: "a \<in> set (inputs p)" "b \<in> set (inputs p)"
      "input_policy L xpubs a = Inr pa" "input_policy L xpubs b = Inr pb" "pa \<noteq> pb"
      by blast
    ultimately have "r = Some pa" "r = Some pb" by fastforce+
    with ab(5) show False by simp
  qed
  then obtain e where e: "policy_loop L xpubs (inputs p') None = Inl e"
    by (cases "policy_loop L xpubs (inputs p') None") auto
  have init: "PSBTSigner_init L wal data' qf = Inl e"
    by (rule init_policy_loop_Inl[OF parse' xp' e])
  show ?thesis
  proof (intro conjI impI)
    show "\<exists>e. PSBTSigner_init L wal data' qf = Inl e
            \<and> (e = ValueError ''mixed inputs in the tx'' \<or> e = ValueError ''Unable to get policy'')"
      using init policy_loop_Inl[OF e] by auto
  next
    assume "\<forall>a\<in>set (inputs p). \<exists>q. input_policy L xpubs a = Inr q"
    then have "\<forall>a\<in>set (inputs p'). \<exists>q. input_policy L xpubs a = Inr q" using set_eq by simp
    from policy_loop_Inl_all_ok[OF e this] init
    show "PSBTSigner_init L wal data' qf = Inl (ValueError ''mixed inputs in the tx'')" by simp
  qed
qed


lemma ex_parse:
  "parse_psbt_data ex_lib 0 (Bytes (psbt_magic @ [0])) = Inr (ex_psbt_change_first, None, None)"
  "parse_psbt_data ex_lib 0 (Bytes (psbt_magic @ [1])) = Inr (ex_psbt_spend_first, None, None)"
  "parse_psbt_data ex_lib 0 (Bytes (psbt_magic @ [2])) = Inr (ex_psbt_mixed, None, None)"
  "parse_psbt_data ex_lib 0 (Bytes (psbt_magic @ [3])) = Inr (ex_psbt_multi, None, None)"
  by (simp_all add: parse_psbt_data_def ex_lib_def ex_PSBT_parse_def psbt_magic_def ex_psbts_def
      ex_pmofn_def)

theorem mixed_inputs_rejected_witness:
  "PSBTSigner_init ex_lib ex_wallet (Bytes (psbt_magic @ [2])) 0
     = Inl (ValueError ''mixed inputs in the tx'')"
proof -
  let ?x = "[([0x09], \<lparr>fingerprint = [0xAA], derivation = [h84, h0, h0]\<rparr>)]
             :: (hdkey \<times> derivation_path) list"
  have xp: "xpubs_of \<lparr>s_wallet = ex_wallet, base_encoding = None, ur_type = None,
                       qr_format = 0, s_psbt = ex_psbt_mixed, s_policy = None\<rparr> = Inr ?x"
    by (simp add: xpubs_of_def descriptor_keys_def ex_psbt_mixed_def ex_wallet_def)
  let ?i2 = "empty_scope\<lparr>witness_utxo := Some \<lparr>tx_value = 5000,
                                                      script_pubkey = [0x76, 0x42]\<rparr>\<rparr>"
  have p1: "input_policy ex_lib ?x ex_input = Inr \<lparr>ptype = ''p2wpkh'', multi = None\<rparr>"
    and p2: "input_policy ex_lib ?x ?i2 = Inr \<lparr>ptype = ''p2pkh'', multi = None\<rparr>"
    by (simp_all add: input_policy_def get_policy_def ex_input_def
        empty_scope_def ex_lib_def ex_script_type_def)
  have ins: "inputs ex_psbt_mixed = [ex_input, ?i2]"
    by (simp add: ex_psbt_mixed_def)
  have two: "\<exists>a\<in>set (inputs ex_psbt_mixed). \<exists>b\<in>set (inputs ex_psbt_mixed). \<exists>pa pb.
                input_policy ex_lib ?x a = Inr pa \<and> input_policy ex_lib ?x b = Inr pb
                \<and> pa \<noteq> pb"
    unfolding ins by (simp add: p1 p2)
  have all: "\<forall>a\<in>set (inputs ex_psbt_mixed). \<exists>q. input_policy ex_lib ?x a = Inr q"
    unfolding ins by (simp add: p1 p2)
  from mixed_inputs_rejected[OF ex_parse(3) xp two ex_parse(3)] all show ?thesis by simp
qed

subsection \<open>Gathering the xpubs\<close>

lemma descriptor_xpubs_no_origin:
  "\<forall>k\<in>set ks. dk_origin k = None \<Longrightarrow> descriptor_xpubs ks acc = acc"
  by (induction ks arbitrary: acc) auto

lemma get_cosigners_no_xpubs:
  assumes "pubkeys \<noteq> []"
  shows "get_cosigners L pubkeys derivations [] = Inl (ValueError ''missing derivation'')
         \<or> get_cosigners L pubkeys derivations [] = Inl (ValueError ''cannot get all cosigners'')"
proof (cases "\<exists>pk\<in>set pubkeys. map_of derivations pk = None")
  case True
  then show ?thesis by (simp add: get_cosigners_def cosigners_loop_missing)
next
  case False
  then have all: "\<forall>pk\<in>set pubkeys. map_of derivations pk \<noteq> None" by simp
  have "spec_matches L pubkeys derivations [] = []"
    by (induction pubkeys) (auto simp: spec_matches_def matched_def split: option.splits)
  with assms show ?thesis
    by (simp add: get_cosigners_def cosigners_loop_all[OF all])
qed

lemma input_policy_no_xpubs:
  assumes "cosigner_matching_input L inp"
  shows "input_policy L [] inp = Inl (ValueError ''missing derivation'')
         \<or> input_policy L [] inp = Inl (ValueError ''cannot get all cosigners'')"
proof -
  from assms obtain u ws st m pubkeys where f: "witness_utxo inp = Some u"
    "witness_script inp = Some ws" "script_type L (script_pubkey u) = Some st"
    "st = ''p2sh'' \<or> str_in ''p2wsh'' st" "parse_multisig L ws = Inr (m, pubkeys)"
    "pubkeys \<noteq> []"
    by (auto simp: cosigner_matching_input_def split: option.splits sum.splits)
  from get_cosigners_no_xpubs[OF f(6), of L "bip32_derivations inp"] f(1-5)
  show ?thesis
    by (auto simp: input_policy_def get_policy_def Let_def)
qed


lemma xpubs_of_missing_iff:
  "xpubs_of s = Inl e \<longleftrightarrow>
     e = ValueError ''missing xpubs'' \<and> p_xpubs (s_psbt s) = [] \<and> w_descriptor (s_wallet s) = None"
  by (auto simp: xpubs_of_def split: option.splits)

lemma init_not_missing_xpubs:
  assumes "parse_psbt_data L qf data = Inr (p, be, ur)"
    and "xpubs_of \<lparr>s_wallet = wal, base_encoding = be, ur_type = ur, qr_format = qf,
                   s_psbt = p, s_policy = None\<rparr> = Inr xpubs"
  shows "PSBTSigner_init L wal data qf \<noteq> Inl (ValueError ''missing xpubs'')"
proof (cases "policy_loop L xpubs (inputs p) None")
  case (Inl e)
  from policy_loop_Inl[OF Inl] init_policy_loop_Inl[OF assms Inl] show ?thesis by auto
next
  case (Inr pol)
  with assms show ?thesis
    by (auto simp: PSBTSigner_init_def is_multisig_def split: option.splits)
qed

text \<open>Claim C10, as amended. Let the PSBT carry no global xpub map and the wallet have a
  descriptor none of whose keys carries origin data. Then \<open>xpubs()\<close> returns the empty
  map without raising; \<open>xpubs()\<close> raises only the \<open>ValueError\<close> "missing xpubs", and
  exactly when the PSBT has no xpubs and the wallet has no descriptor at all. In the
  empty-map case the construction of a \<open>PSBTSigner\<close> never fails with "missing xpubs".
  If one of the inputs enters cosigner matching with at least one public key, its policy
  inference fails inside \<open>get_cosigners\<close> ("missing derivation" or "cannot get all
  cosigners") and the construction fails with the \<open>ValueError\<close> "Unable to get policy"
  or "mixed inputs in the tx"; with "Unable to get policy" when that input is the first.
  Nothing is claimed for a PSBT without such an input.\<close>

theorem xpubs_without_origin:
  assumes parse: "parse_psbt_data L qf data = Inr (p, be, ur)"
    and nox: "p_xpubs p = []" and d: "w_descriptor wal = Some d"
    and no_origin: "\<forall>k\<in>set (descriptor_keys d). dk_origin k = None"
    and s: "s = \<lparr>s_wallet = wal, base_encoding = be, ur_type = ur, qr_format = qf,
                   s_psbt = p, s_policy = None\<rparr>"
  shows "xpubs_of s = Inr []
    \<and> (\<forall>s' e. xpubs_of s' = Inl e \<longleftrightarrow>
          e = ValueError ''missing xpubs'' \<and> p_xpubs (s_psbt s') = []
          \<and> w_descriptor (s_wallet s') = None)
    \<and> PSBTSigner_init L wal data qf \<noteq> Inl (ValueError ''missing xpubs'')
    \<and> (\<forall>inp\<in>set (inputs p). cosigner_matching_input L inp \<longrightarrow>
          (input_policy L [] inp = Inl (ValueError ''missing derivation'')
           \<or> input_policy L [] inp = Inl (ValueError ''cannot get all cosigners''))
          \<and> (PSBTSigner_init L wal data qf = Inl (ValueError ''Unable to get policy'')
               \<or> PSBTSigner_init L wal data qf = Inl (ValueError ''mixed inputs in the tx'')))
    \<and> ((\<exists>inp rest. inputs p = inp # rest \<and> cosigner_matching_input L inp) \<longrightarrow>
          PSBTSigner_init L wal data qf = Inl (ValueError ''Unable to get policy''))"
proof -
  have x: "xpubs_of s = Inr []"
    using nox d descriptor_xpubs_no_origin[OF no_origin, of "[]"]
    by (simp add: xpubs_of_def s)
  have x': "xpubs_of \<lparr>s_wallet = wal, base_encoding = be, ur_type = ur, qr_format = qf,
                       s_psbt = p, s_policy = None\<rparr> = Inr []"
    using x by (simp add: s)
  have fail: "PSBTSigner_init L wal data qf = Inl (ValueError ''Unable to get policy'')
               \<or> PSBTSigner_init L wal data qf = Inl (ValueError ''mixed inputs in the tx'')"
    if inp: "inp \<in> set (inputs p)" and c: "cosigner_matching_input L inp" for inp
  proof (cases "policy_loop L [] (inputs p) None")
    case (Inl e)
    from policy_loop_Inl[OF Inl] init_policy_loop_Inl[OF parse x' Inl] show ?thesis by auto
  next
    case (Inr pol)
    from policy_loop_Inr[OF Inr] have "\<forall>a\<in>set (inputs p). \<exists>q. input_policy L [] a = Inr q"
      by auto
    with inp obtain q where "input_policy L [] inp = Inr q" by auto
    with input_policy_no_xpubs[OF c] show ?thesis by simp
  qed
  have first: "PSBTSigner_init L wal data qf = Inl (ValueError ''Unable to get policy'')"
    if "inputs p = inp # rest" and c: "cosigner_matching_input L inp" for inp rest
  proof -
    from input_policy_no_xpubs[OF c] obtain e where "input_policy L [] inp = Inl e" by blast
    with that(1) have "policy_loop L [] (inputs p) None = Inl (ValueError ''Unable to get policy'')"
      by simp
    from init_policy_loop_Inl[OF parse x' this] show ?thesis .
  qed
  have a: "\<forall>s' e. xpubs_of s' = Inl e \<longleftrightarrow>
          e = ValueError ''missing xpubs'' \<and> p_xpubs (s_psbt s') = []
          \<and> w_descriptor (s_wallet s') = None"
    by (simp add: xpubs_of_missing_iff)
  have b: "\<forall>inp\<in>set (inputs p). cosigner_matching_input L inp \<longrightarrow>
          (input_policy L [] inp = Inl (ValueError ''missing derivation'')
           \<or> input_policy L [] inp = Inl (ValueError ''cannot get all cosigners''))
          \<and> (PSBTSigner_init L wal data qf = Inl (ValueError ''Unable to get policy'')
               \<or> PSBTSigner_init L wal data qf = Inl (ValueError ''mixed inputs in the tx''))"
  proof (intro ballI impI conjI)
    fix inp assume "inp \<in> set (inputs p)" and c: "cosigner_matching_input L inp"
    show "input_policy L [] inp = Inl (ValueError ''missing derivation'')
           \<or> input_policy L [] inp = Inl (ValueError ''cannot get all cosigners'')"
      by (rule input_policy_no_xpubs[OF c])
  next
    fix inp assume i: "inp \<in> set (inputs p)" and c: "cosigner_matching_input L inp"
    show "PSBTSigner_init L wal data qf = Inl (ValueError ''Unable to get policy'')
               \<or> PSBTSigner_init L wal data qf = Inl (ValueError ''mixed inputs in the tx'')"
      by (rule fail[OF i c])
  qed
  have c: "(\<exists>inp rest. inputs p = inp # rest \<and> cosigner_matching_input L inp) \<longrightarrow>
          PSBTSigner_init L wal data qf = Inl (ValueError ''Unable to get policy'')"
    using first by blast
  from x a init_not_missing_xpubs[OF parse x'] b c show ?thesis by (intro conjI)
qed

text \<open>The construction can succeed in the empty-map case: a single signature PSBT for a
  wallet whose descriptor key has no origin never enters cosigner matching.\<close>

theorem construction_with_empty_xpubs_counterexample:
  "p_xpubs ex_psbt_change_first = []
   \<and> w_descriptor ex_wallet_no_origin
       = Some \<lparr>d_key = Some \<lparr>dk_key = [0x09], dk_origin = None\<rparr>, d_keys = []\<rparr>
   \<and> PSBTSigner_init ex_lib ex_wallet_no_origin (Bytes (psbt_magic @ [0])) 0
       = Inr \<lparr>s_wallet = ex_wallet_no_origin, base_encoding = None, ur_type = None,
              qr_format = 0, s_psbt = ex_psbt_change_first, s_policy = Some ex_single_policy\<rparr>"
proof -
  have x: "xpubs_of \<lparr>s_wallet = ex_wallet_no_origin, base_encoding = None, ur_type = None,
              qr_format = 0, s_psbt = ex_psbt_change_first, s_policy = None\<rparr> = Inr []"
    by (simp add: xpubs_of_def descriptor_keys_def ex_wallet_no_origin_def ex_wallet_def
        ex_psbt_change_first_def)
  have pl: "policy_loop ex_lib [] (inputs ex_psbt_change_first) None = Inr (Some ex_single_policy)"
    by (simp add: ex_psbt_change_first_def input_policy_def get_policy_def ex_input_def
        ex_lib_def ex_script_type_def ex_single_policy_def)
  have w: "w_is_multisig ex_wallet_no_origin = False" "w_is_loaded ex_wallet_no_origin = False"
    by (simp_all add: ex_wallet_no_origin_def ex_wallet_def)
  have ms: "is_multisig (Some ex_single_policy) = Inr False"
    by (simp add: is_multisig_def ex_single_policy_def)
  have "PSBTSigner_init ex_lib ex_wallet_no_origin (Bytes (psbt_magic @ [0])) 0
       = Inr \<lparr>s_wallet = ex_wallet_no_origin, base_encoding = None, ur_type = None,
              qr_format = 0, s_psbt = ex_psbt_change_first, s_policy = Some ex_single_policy\<rparr>"
    by (simp add: PSBTSigner_init_def ex_parse(1) x pl w ms)
  then show ?thesis
    by (simp add: ex_psbt_change_first_def ex_wallet_no_origin_def ex_wallet_def)
qed

theorem xpubs_without_origin_witness:
  "xpubs_of \<lparr>s_wallet = ex_multi_wallet_no_origin, base_encoding = None, ur_type = None,
              qr_format = 0, s_psbt = ex_psbt_multi, s_policy = None\<rparr> = Inr []
   \<and> cosigner_matching_input ex_lib ex_multi_input
   \<and> PSBTSigner_init ex_lib ex_multi_wallet_no_origin (Bytes (psbt_magic @ [3])) 0
       = Inl (ValueError ''Unable to get policy'')"
proof -
  have nox: "p_xpubs ex_psbt_multi = []" by (simp add: ex_psbt_multi_def)
  have d: "w_descriptor ex_multi_wallet_no_origin
             = Some \<lparr>d_key = None, d_keys = [\<lparr>dk_key = [0x10], dk_origin = None\<rparr>,
                                              \<lparr>dk_key = [0x20], dk_origin = None\<rparr>]\<rparr>"
    by (simp add: ex_multi_wallet_no_origin_def ex_multi_wallet_def)
  have no: "\<forall>k\<in>set (descriptor_keys \<lparr>d_key = None,
                 d_keys = [\<lparr>dk_key = [0x10], dk_origin = None\<rparr>,
                           \<lparr>dk_key = [0x20], dk_origin = None\<rparr>]\<rparr>). dk_origin k = None"
    by (simp add: descriptor_keys_def)
  have c: "cosigner_matching_input ex_lib ex_multi_input"
    by (simp add: cosigner_matching_input_def ex_multi_input_def ex_lib_def
        ex_script_type_def ex_parse_multisig_def)
  have i: "inputs ex_psbt_multi = ex_multi_input # []" by (simp add: ex_psbt_multi_def)
  have e: "\<exists>inp rest. inputs ex_psbt_multi = inp # rest \<and> cosigner_matching_input ex_lib inp"
    using c i by simp
  note t = xpubs_without_origin[OF ex_parse(4) nox d no refl]
  from t have r1: "xpubs_of \<lparr>s_wallet = ex_multi_wallet_no_origin, base_encoding = None,
              ur_type = None, qr_format = 0, s_psbt = ex_psbt_multi, s_policy = None\<rparr> = Inr []"
    by (rule conjunct1)
  from t have r2: "PSBTSigner_init ex_lib ex_multi_wallet_no_origin (Bytes (psbt_magic @ [3])) 0
       = Inl (ValueError ''Unable to get policy'')"
    by (elim conjE) (erule impE, rule e, assumption)
  from r1 c r2 show ?thesis by (intro conjI)
qed

subsection \<open>Signing\<close>

lemma copy_partial_sigs_ok:
  "k + length ins \<le> length tr \<Longrightarrow>
   \<exists>r. copy_partial_sigs tr (enumerate k ins) = Inr r \<and> length r = length tr
     \<and> (\<forall>i<length tr. r ! i =
           (if k \<le> i \<and> i < k + length ins
            then (tr ! i)\<lparr>partial_sigs := partial_sigs (ins ! (i - k))\<rparr> else tr ! i))"
proof (induction ins arbitrary: k tr)
  case Nil
  then show ?case by auto
next
  case (Cons inp ins)
  let ?tr = "tr[k := (tr ! k)\<lparr>partial_sigs := partial_sigs inp\<rparr>]"
  from Cons.prems have k: "k < length tr" and le: "Suc k + length ins \<le> length ?tr" by simp_all
  from Cons.IH[OF le] obtain r where r: "copy_partial_sigs ?tr (enumerate (Suc k) ins) = Inr r"
    "length r = length tr"
    "\<forall>i<length tr. r ! i =
           (if Suc k \<le> i \<and> i < Suc k + length ins
            then (?tr ! i)\<lparr>partial_sigs := partial_sigs (ins ! (i - Suc k))\<rparr> else ?tr ! i)"
    by auto
  have "copy_partial_sigs tr (enumerate k (inp # ins)) = Inr r" using k r(1) by simp
  moreover have "\<forall>i<length tr. r ! i =
           (if k \<le> i \<and> i < k + length (inp # ins)
            then (tr ! i)\<lparr>partial_sigs := partial_sigs ((inp # ins) ! (i - k))\<rparr> else tr ! i)"
  proof (intro allI impI)
    fix i assume i: "i < length tr"
    show "r ! i = (if k \<le> i \<and> i < k + length (inp # ins)
            then (tr ! i)\<lparr>partial_sigs := partial_sigs ((inp # ins) ! (i - k))\<rparr> else tr ! i)"
    proof (cases "i = k")
      case True
      with r(3) i show ?thesis by simp
    next
      case False
      with r(3) i show ?thesis by (auto simp: nth_Cons' Suc_diff_Suc)
    qed
  qed
  ultimately show ?case using r(2) by blast
qed

lemma copy_partial_sigs_Inl:
  "copy_partial_sigs tr (enumerate k ins) = Inl e \<Longrightarrow> e = IndexError \<and> length tr < k + length ins"
proof (induction ins arbitrary: k tr)
  case Nil
  then show ?case by simp
next
  case (Cons inp ins)
  show ?case
  proof (cases "k < length tr")
    case True
    with Cons.prems have "copy_partial_sigs (tr[k := (tr ! k)\<lparr>partial_sigs := partial_sigs inp\<rparr>])
        (enumerate (Suc k) ins) = Inl e" by simp
    from Cons.IH[OF this] show ?thesis by simp
  next
    case False
    with Cons.prems show ?thesis by simp
  qed
qed


lemma copy_partial_sigs_no_room:
  "k \<le> length tr \<Longrightarrow> length tr < k + length ins \<Longrightarrow>
   copy_partial_sigs tr (enumerate k ins) = Inl IndexError"
proof (induction ins arbitrary: k tr)
  case Nil
  then show ?case by simp
next
  case (Cons inp ins)
  show ?case
  proof (cases "k < length tr")
    case True
    with Cons.prems Cons.IH[of "Suc k" "tr[k := (tr ! k)\<lparr>partial_sigs := partial_sigs inp\<rparr>]"]
    show ?thesis by simp
  next
    case False
    then show ?thesis by simp
  qed
qed

text \<open>Claim C7. \<open>sign()\<close> fails with the \<open>ValueError\<close> "cannot sign" if and only if
  the library added zero signatures. When it succeeds, only the PSBT of the signer
  changes, and the new PSBT is the one the constructor \<open>PSBT(tx)\<close> makes from the
  transaction of the signed PSBT, in which input \<open>i\<close> has received the partial
  signatures of input \<open>i\<close> of the signed PSBT and nothing else; with the library's
  constructor (empty scopes, no xpubs) and one input scope per transaction input, every
  input keeps its partial signatures only, and the outputs and the xpub map are empty.
  It succeeds whenever signatures were added and the fresh PSBT has room for the
  inputs.\<close>

theorem sign_result:
  "(sign L s = Inl (ValueError ''cannot sign'')
      \<longleftrightarrow> snd (sign_with L (s_psbt s) (w_root (s_wallet s))) = 0)
   \<and> (\<forall>s'. sign L s = Inr s' \<longrightarrow>
        (let psbt1 = fst (sign_with L (s_psbt s) (w_root (s_wallet s)));
             fresh = PSBT_new L (p_tx psbt1)
         in s' = s\<lparr>s_psbt := s_psbt s'\<rparr>
            \<and> s_psbt s' = fresh\<lparr>inputs := inputs (s_psbt s')\<rparr>
            \<and> length (inputs psbt1) \<le> length (inputs fresh)
            \<and> length (inputs (s_psbt s')) = length (inputs fresh)
            \<and> (\<forall>i<length (inputs fresh). inputs (s_psbt s') ! i =
                  (if i < length (inputs psbt1)
                   then (inputs fresh ! i)\<lparr>partial_sigs := partial_sigs (inputs psbt1 ! i)\<rparr>
                   else inputs fresh ! i))
            \<and> (fresh = ex_PSBT_new (p_tx psbt1)
                 \<and> length (inputs psbt1) = length (vin (p_tx psbt1)) \<longrightarrow>
                 s_psbt s' =
                   \<lparr>p_tx = p_tx psbt1,
                    inputs = map (\<lambda>inp. empty_scope\<lparr>partial_sigs := partial_sigs inp\<rparr>)
                               (inputs psbt1),
                    outputs = replicate (length (vout (p_tx psbt1))) empty_scope,
                    p_xpubs = []\<rparr>)))
   \<and> (snd (sign_with L (s_psbt s) (w_root (s_wallet s))) \<noteq> 0
        \<and> length (inputs (fst (sign_with L (s_psbt s) (w_root (s_wallet s)))))
            \<le> length (inputs (PSBT_new L
                   (p_tx (fst (sign_with L (s_psbt s) (w_root (s_wallet s)))))))
        \<longrightarrow> (\<exists>s'. sign L s = Inr s'))"
proof -
  obtain psbt1 n where sw: "sign_with L (s_psbt s) (w_root (s_wallet s)) = (psbt1, n)"
    by (cases "sign_with L (s_psbt s) (w_root (s_wallet s))")
  define fresh where "fresh = PSBT_new L (p_tx psbt1)"
  have zero: "sign L s = Inl (ValueError ''cannot sign'') \<longleftrightarrow> n = 0"
  proof
    assume a: "sign L s = Inl (ValueError ''cannot sign'')"
    show "n = 0"
    proof (rule ccontr)
      assume "n \<noteq> 0"
      with a sw have "copy_partial_sigs (inputs fresh) (enumerate 0 (inputs psbt1))
                        = Inl (ValueError ''cannot sign'')"
        by (simp add: sign_def fresh_def Let_def split: sum.splits)
      from copy_partial_sigs_Inl[OF this] show False by simp
    qed
  next
    assume "n = 0"
    with sw show "sign L s = Inl (ValueError ''cannot sign'')" by (simp add: sign_def)
  qed
  have ok: "\<exists>s'. sign L s = Inr s'" if "n \<noteq> 0" "length (inputs psbt1) \<le> length (inputs fresh)"
  proof -
    from copy_partial_sigs_ok[of 0 "inputs psbt1" "inputs fresh"] that(2)
    obtain r where "copy_partial_sigs (inputs fresh) (enumerate 0 (inputs psbt1)) = Inr r"
      by auto
    with that(1) sw show ?thesis by (simp add: sign_def fresh_def Let_def)
  qed
  have res: "s' = s\<lparr>s_psbt := s_psbt s'\<rparr>
            \<and> s_psbt s' = fresh\<lparr>inputs := inputs (s_psbt s')\<rparr>
            \<and> length (inputs psbt1) \<le> length (inputs fresh)
            \<and> length (inputs (s_psbt s')) = length (inputs fresh)
            \<and> (\<forall>i<length (inputs fresh). inputs (s_psbt s') ! i =
                  (if i < length (inputs psbt1)
                   then (inputs fresh ! i)\<lparr>partial_sigs := partial_sigs (inputs psbt1 ! i)\<rparr>
                   else inputs fresh ! i))" if s': "sign L s = Inr s'" for s'
  proof -
    from s' sw obtain r where r: "copy_partial_sigs (inputs fresh) (enumerate 0 (inputs psbt1)) = Inr r"
      and eq: "s' = s\<lparr>s_psbt := fresh\<lparr>inputs := r\<rparr>\<rparr>"
      by (auto simp: sign_def fresh_def Let_def split: if_splits sum.splits)
    have le: "length (inputs psbt1) \<le> length (inputs fresh)"
    proof (rule ccontr)
      assume "\<not> ?thesis"
      then have "length (inputs fresh) < 0 + length (inputs psbt1)" by simp
      from copy_partial_sigs_no_room[OF _ this] r show False by simp
    qed
    from copy_partial_sigs_ok[of 0 "inputs psbt1" "inputs fresh"] le r
    have "length r = length (inputs fresh)"
      and "\<forall>i<length (inputs fresh). r ! i =
           (if i < length (inputs psbt1)
            then (inputs fresh ! i)\<lparr>partial_sigs := partial_sigs (inputs psbt1 ! i)\<rparr>
            else inputs fresh ! i)"
      by auto
    with le show ?thesis by (simp add: eq)
  qed
  have trimmed: "s_psbt s' =
                   \<lparr>p_tx = p_tx psbt1,
                    inputs = map (\<lambda>inp. empty_scope\<lparr>partial_sigs := partial_sigs inp\<rparr>)
                               (inputs psbt1),
                    outputs = replicate (length (vout (p_tx psbt1))) empty_scope,
                    p_xpubs = []\<rparr>"
    if s': "sign L s = Inr s'" and f: "fresh = ex_PSBT_new (p_tx psbt1)"
      and len: "length (inputs psbt1) = length (vin (p_tx psbt1))" for s'
  proof -
    note r = res[OF s']
    have fi: "inputs fresh = replicate (length (inputs psbt1)) empty_scope"
      by (simp add: f ex_PSBT_new_def len)
    have "inputs (s_psbt s')
            = map (\<lambda>inp. empty_scope\<lparr>partial_sigs := partial_sigs inp\<rparr>) (inputs psbt1)"
    proof (rule nth_equalityI)
      show "length (inputs (s_psbt s'))
              = length (map (\<lambda>inp. empty_scope\<lparr>partial_sigs := partial_sigs inp\<rparr>) (inputs psbt1))"
        using r fi by simp
    next
      fix i assume "i < length (inputs (s_psbt s'))"
      then have i: "i < length (inputs psbt1)" "i < length (inputs fresh)" using r fi by simp_all
      with r have "inputs (s_psbt s') ! i
                     = (inputs fresh ! i)\<lparr>partial_sigs := partial_sigs (inputs psbt1 ! i)\<rparr>"
        by simp
      with i show "inputs (s_psbt s') ! i
          = map (\<lambda>inp. empty_scope\<lparr>partial_sigs := partial_sigs inp\<rparr>) (inputs psbt1) ! i"
        by (simp add: fi)
    qed
    moreover have "s_psbt s' = fresh\<lparr>inputs := inputs (s_psbt s')\<rparr>" using r by blast
    ultimately have "s_psbt s' = fresh\<lparr>inputs :=
        map (\<lambda>inp. empty_scope\<lparr>partial_sigs := partial_sigs inp\<rparr>) (inputs psbt1)\<rparr>"
      by simp
    then show ?thesis by (simp add: f ex_PSBT_new_def)
  qed
  show ?thesis
    unfolding sw fst_conv snd_conv Let_def fresh_def[symmetric]
  proof (intro conjI allI impI)
    show "sign L s = Inl (ValueError ''cannot sign'') \<longleftrightarrow> n = 0" by (rule zero)
  next
    fix s' assume "sign L s = Inr s'"
    from res[OF this] show "s' = s\<lparr>s_psbt := s_psbt s'\<rparr>" by blast
  next
    fix s' assume "sign L s = Inr s'"
    from res[OF this] show "s_psbt s' = fresh\<lparr>inputs := inputs (s_psbt s')\<rparr>" by blast
  next
    fix s' assume "sign L s = Inr s'"
    from res[OF this] show "length (inputs psbt1) \<le> length (inputs fresh)" by blast
  next
    fix s' assume "sign L s = Inr s'"
    from res[OF this] show "length (inputs (s_psbt s')) = length (inputs fresh)" by blast
  next
    fix s' i assume "sign L s = Inr s'" "i < length (inputs fresh)"
    with res[of s'] show "inputs (s_psbt s') ! i =
                  (if i < length (inputs psbt1)
                   then (inputs fresh ! i)\<lparr>partial_sigs := partial_sigs (inputs psbt1 ! i)\<rparr>
                   else inputs fresh ! i)" by blast
  next
    fix s' assume "sign L s = Inr s'"
      "fresh = ex_PSBT_new (p_tx psbt1) \<and> length (inputs psbt1) = length (vin (p_tx psbt1))"
    then show "s_psbt s' =
                   \<lparr>p_tx = p_tx psbt1,
                    inputs = map (\<lambda>inp. empty_scope\<lparr>partial_sigs := partial_sigs inp\<rparr>)
                               (inputs psbt1),
                    outputs = replicate (length (vout (p_tx psbt1))) empty_scope,
                    p_xpubs = []\<rparr>"
      using trimmed by blast
  next
    assume "n \<noteq> 0 \<and> length (inputs psbt1) \<le> length (inputs fresh)"
    then show "\<exists>s'. sign L s = Inr s'" using ok by blast
  qed
qed


lemma ex_signer_init:
  "PSBTSigner_init ex_lib ex_wallet (Bytes (psbt_magic @ [0])) 0 = Inr ex_signer"
proof -
  have x: "xpubs_of \<lparr>s_wallet = ex_wallet, base_encoding = None, ur_type = None,
              qr_format = 0, s_psbt = ex_psbt_change_first, s_policy = None\<rparr>
            = Inr [([0x09], \<lparr>fingerprint = [0xAA], derivation = [h84, h0, h0]\<rparr>)]"
    by (simp add: xpubs_of_def descriptor_keys_def ex_wallet_def ex_psbt_change_first_def)
  have pl: "policy_loop ex_lib [([0x09], \<lparr>fingerprint = [0xAA], derivation = [h84, h0, h0]\<rparr>)]
              (inputs ex_psbt_change_first) None = Inr (Some ex_single_policy)"
    by (simp add: ex_psbt_change_first_def input_policy_def get_policy_def ex_input_def
        ex_lib_def ex_script_type_def ex_single_policy_def)
  have w: "w_is_multisig ex_wallet = False" "w_is_loaded ex_wallet = False"
    by (simp_all add: ex_wallet_def)
  have ms: "is_multisig (Some ex_single_policy) = Inr False"
    by (simp add: is_multisig_def ex_single_policy_def)
  show ?thesis
    by (simp add: PSBTSigner_init_def ex_parse(1) x pl w ms ex_signer_def)
qed

theorem sign_result_witness:
  "sign ex_lib ex_signer \<noteq> Inl (ValueError ''cannot sign'')
   \<and> map_sum id s_psbt (sign ex_lib ex_signer) =
       Inr \<lparr>p_tx = p_tx ex_psbt_change_first,
            inputs = [empty_scope\<lparr>partial_sigs := [([0x07], [0x30])]\<rparr>],
            outputs = [empty_scope, empty_scope], p_xpubs = []\<rparr>
   \<and> sign ex_lib (ex_signer\<lparr>s_psbt := ex_psbt_change_first\<lparr>inputs := [empty_scope]\<rparr>\<rparr>)
       = Inl (ValueError ''cannot sign'')"
proof -
  let ?p1 = "ex_psbt_change_first\<lparr>inputs := [ex_input\<lparr>partial_sigs := [([0x07], [0x30])]\<rparr>]\<rparr>"
  have sw: "sign_with ex_lib (s_psbt ex_signer) (w_root (s_wallet ex_signer)) = (?p1, 1)"
    by (simp add: ex_signer_def ex_lib_def ex_sign_with_def ex_psbt_change_first_def
        ex_input_def ex_wallet_def)
  have fresh: "PSBT_new ex_lib (p_tx ?p1) = ex_PSBT_new (p_tx ?p1)"
    by (simp add: ex_lib_def)
  have len: "length (inputs ?p1) = length (vin (p_tx ?p1))"
    "length (inputs ?p1) \<le> length (inputs (PSBT_new ex_lib (p_tx ?p1)))"
    by (simp_all add: ex_psbt_change_first_def ex_lib_def ex_PSBT_new_def)
  note t = sign_result[of ex_lib ex_signer, unfolded sw fst_conv snd_conv Let_def]
  from t have r1: "sign ex_lib ex_signer \<noteq> Inl (ValueError ''cannot sign'')" by simp
  from t len(2) obtain s' where s': "sign ex_lib ex_signer = Inr s'" by auto
  with t fresh len(1) have "s_psbt s' =
       \<lparr>p_tx = p_tx ?p1,
        inputs = map (\<lambda>inp. empty_scope\<lparr>partial_sigs := partial_sigs inp\<rparr>) (inputs ?p1),
        outputs = replicate (length (vout (p_tx ?p1))) empty_scope, p_xpubs = []\<rparr>"
    by blast
  then have r2: "map_sum id s_psbt (sign ex_lib ex_signer) =
       Inr \<lparr>p_tx = p_tx ex_psbt_change_first,
            inputs = [empty_scope\<lparr>partial_sigs := [([0x07], [0x30])]\<rparr>],
            outputs = [empty_scope, empty_scope], p_xpubs = []\<rparr>"
    by (simp add: s' ex_psbt_change_first_def ex_input_def numeral_2_eq_2)
  let ?s0 = "ex_signer\<lparr>s_psbt := ex_psbt_change_first\<lparr>inputs := [empty_scope]\<rparr>\<rparr>"
  have "snd (sign_with ex_lib (s_psbt ?s0) (w_root (s_wallet ?s0))) = 0"
    by (simp add: ex_lib_def ex_sign_with_def empty_scope_def)
  with sign_result[of ex_lib ?s0]
  have r3: "sign ex_lib ?s0 = Inl (ValueError ''cannot sign'')" by blast
  from r1 r2 r3 show ?thesis by (intro conjI)
qed

subsection \<open>Re-serialization for the QR code\<close>

lemma str_encode_bytes_decode: "str_encode (bytes_decode bs) = bs"
proof -
  have "word_of_nat (of_char (char_of (unat b))) = b" for b :: "8 word"
  proof -
    have "unat b < 256" using unsigned_less[of b, where ?'a = nat] by simp
    then show ?thesis by simp
  qed
  then show ?thesis by (simp add: str_encode_def bytes_decode_def map_idI)
qed

lemma init_Inr_fields:
  assumes a: "PSBTSigner_init L wal data qf = Inr s"
  shows "parse_psbt_data L qf data = Inr (s_psbt s, base_encoding s, ur_type s) \<and> qr_format s = qf"
proof -
  obtain p be ur where P: "parse_psbt_data L qf data = Inr (p, be, ur)"
    using a by (cases "parse_psbt_data L qf data") (auto simp: PSBTSigner_init_def)
  let ?s0 = "\<lparr>s_wallet = wal, base_encoding = be, ur_type = ur, qr_format = qf,
              s_psbt = p, s_policy = None\<rparr>"
  obtain x where X: "xpubs_of ?s0 = Inr x"
    using a P by (cases "xpubs_of ?s0") (auto simp: PSBTSigner_init_def)
  obtain pol where PL: "policy_loop L x (inputs p) None = Inr pol"
    using a P X by (cases "policy_loop L x (inputs p) None") (auto simp: PSBTSigner_init_def)
  obtain ms where MS: "is_multisig pol = Inr ms"
    using a P X PL by (cases "is_multisig pol") (auto simp: PSBTSigner_init_def)
  from a P X PL MS have "s = ?s0\<lparr>s_policy := pol\<rparr>"
    by (simp add: PSBTSigner_init_def split: if_splits)
  with P show ?thesis by simp
qed

lemma cascade_detect:
  assumes n: "PSBT_parse L d = None"
    and c: "(case parse_base L d 64 of
              Some p \<Rightarrow> Inr (p, Some 64, None)
            | None \<Rightarrow>
                (case parse_base L d 58 of
                   Some p \<Rightarrow> Inr (p, Some 58, None)
                 | None \<Rightarrow>
                     (case parse_base L d 43 of
                        Some p \<Rightarrow> Inr (p, Some (43::nat), None :: registry_type option)
                      | None \<Rightarrow> Inl (ValueError ''invalid PSBT'')))) = Inr (p, be, ur)"
  shows "\<exists>k. (k = 64 \<or> k = 58 \<or> k = 43) \<and> be = Some k \<and> ur = None
           \<and> (case parse_base L d 64 of
                 Some p \<Rightarrow> Some (Enc_base 64, p)
               | None \<Rightarrow>
                  (case parse_base L d 58 of
                     Some p \<Rightarrow> Some (Enc_base 58, p)
                   | None \<Rightarrow> map_option (Pair (Enc_base 43)) (parse_base L d 43)))
               = Some (Enc_base k, p)"
proof (cases "parse_base L d 64")
  case (Some a)
  with c show ?thesis by simp
next
  case n64: None
  show ?thesis
  proof (cases "parse_base L d 58")
    case (Some a)
    with c n64 show ?thesis by simp
  next
    case n58: None
    show ?thesis
    proof (cases "parse_base L d 43")
      case (Some a)
      with c n64 n58 show ?thesis by simp
    next
      case None
      with c n64 n58 show ?thesis by simp
    qed
  qed
qed

lemma parse_psbt_data_detect:
  assumes "parse_psbt_data L qf data = Inr (p, be, ur)"
  shows "\<exists>enc. spec_detect L data = Some (enc, p)
     \<and> ur = (if enc = Enc_UR then Some CRYPTO_PSBT else None)
     \<and> be = (case emitted_encoding L qf enc of Enc_base n \<Rightarrow> Some n | _ \<Rightarrow> None)
     \<and> (\<forall>n. emitted_encoding L qf enc = Enc_base n \<longrightarrow> n = 64 \<or> n = 58 \<or> n = 43)"
proof (cases data)
  case (UR ty cbor)
  with assms have "spec_detect L data = Some (Enc_UR, p)" "ur = Some CRYPTO_PSBT" "be = None"
    by (auto simp: parse_psbt_data_def spec_detect_def split: option.splits)
  then show ?thesis by (simp add: emitted_encoding_def)
next
  case (Str str)
  show ?thesis
  proof (cases "PSBT_parse L (str_encode str)")
    case (Some p0)
    with assms Str have "spec_detect L data = Some (Enc_raw, p)" "ur = None"
      "be = (if qf = FORMAT_PMOFN L then Some 64 else None)"
      by (simp_all add: parse_psbt_data_def spec_detect_def)
    then show ?thesis by (simp add: emitted_encoding_def)
  next
    case None
    have c: "(case parse_base L (str_encode str) 64 of
              Some p \<Rightarrow> Inr (p, Some 64, None)
            | None \<Rightarrow>
                (case parse_base L (str_encode str) 58 of
                   Some p \<Rightarrow> Inr (p, Some 58, None)
                 | None \<Rightarrow>
                     (case parse_base L (str_encode str) 43 of
                        Some p \<Rightarrow> Inr (p, Some (43::nat), None :: registry_type option)
                      | None \<Rightarrow> Inl (ValueError ''invalid PSBT'')))) = Inr (p, be, ur)"
      using assms Str None by (simp add: parse_psbt_data_def Let_def)
    have sd: "spec_detect L data =
             (case parse_base L (str_encode str) 64 of
                 Some p \<Rightarrow> Some (Enc_base 64, p)
               | None \<Rightarrow>
                  (case parse_base L (str_encode str) 58 of
                     Some p \<Rightarrow> Some (Enc_base 58, p)
                   | None \<Rightarrow> map_option (Pair (Enc_base 43)) (parse_base L (str_encode str) 43)))"
      using Str None by (simp add: spec_detect_def Let_def)
    from cascade_detect[OF None c] obtain k where "k = 64 \<or> k = 58 \<or> k = 43"
      "be = Some k" "ur = None" "spec_detect L data = Some (Enc_base k, p)"
      unfolding sd by blast
    then show ?thesis by (simp add: emitted_encoding_def)
  qed
next
  case (Bytes b)
  show ?thesis
  proof (cases "PSBT_parse L b")
    case (Some p0)
    with assms Bytes have "spec_detect L data = Some (Enc_raw, p)" "ur = None"
      "be = (if qf = FORMAT_PMOFN L then Some 64 else None)"
      by (simp_all add: parse_psbt_data_def spec_detect_def)
    then show ?thesis by (simp add: emitted_encoding_def)
  next
    case None
    have c: "(case parse_base L (b) 64 of
              Some p \<Rightarrow> Inr (p, Some 64, None)
            | None \<Rightarrow>
                (case parse_base L (b) 58 of
                   Some p \<Rightarrow> Inr (p, Some 58, None)
                 | None \<Rightarrow>
                     (case parse_base L (b) 43 of
                        Some p \<Rightarrow> Inr (p, Some (43::nat), None :: registry_type option)
                      | None \<Rightarrow> Inl (ValueError ''invalid PSBT'')))) = Inr (p, be, ur)"
      using assms Bytes None by (simp add: parse_psbt_data_def Let_def)
    have sd: "spec_detect L data =
             (case parse_base L (b) 64 of
                 Some p \<Rightarrow> Some (Enc_base 64, p)
               | None \<Rightarrow>
                  (case parse_base L (b) 58 of
                     Some p \<Rightarrow> Some (Enc_base 58, p)
                   | None \<Rightarrow> map_option (Pair (Enc_base 43)) (parse_base L (b) 43)))"
      using Bytes None by (simp add: spec_detect_def Let_def)
    from cascade_detect[OF None c] obtain k where "k = 64 \<or> k = 58 \<or> k = 43"
      "be = Some k" "ur = None" "spec_detect L data = Some (Enc_base k, p)"
      unfolding sd by blast
    then show ?thesis by (simp add: emitted_encoding_def)
  qed
qed


lemma psbt_qr_emitted:
  assumes ur: "ur_type s = (if enc = Enc_UR then Some CRYPTO_PSBT else None)"
    and be: "base_encoding s = (case enc of Enc_base n \<Rightarrow> Some n | _ \<Rightarrow> None)"
  shows "psbt_qr L s = Inr (spec_reencode L enc (PSBT_serialize L (s_psbt s)), qr_format s)"
  using assms by (cases enc) (simp_all add: psbt_qr_def spec_reencode_def)

lemma decode_reencode:
  assumes "\<forall>b. from_cbor L (to_cbor L b) = Some b"
    and "\<forall>n. enc = Enc_base n \<longrightarrow> (\<forall>b. base_decode L (base_encode L b n) n = Some b)"
  shows "spec_decode_payload L enc (spec_reencode L enc raw) = Some raw"
  using assms
  by (cases enc) (simp_all add: spec_decode_payload_def spec_reencode_def str_encode_bytes_decode)

text \<open>What \<^verbatim>\<open>psbt_qr\<close> returns, in terms of the serializer.\<close>

lemma psbt_qr_reencodes:
  assumes init: "PSBTSigner_init L wal data qf = Inr s"
    and cbor: "\<forall>b. from_cbor L (to_cbor L b) = Some b"
    and base: "\<forall>n b. n = 64 \<or> n = 58 \<or> n = 43 \<longrightarrow> base_decode L (base_encode L b n) n = Some b"
  shows "\<exists>enc. spec_detect L data = Some (enc, s_psbt s)
           \<and> psbt_qr L s
               = Inr (spec_reencode L (emitted_encoding L qf enc) (PSBT_serialize L (s_psbt s)), qf)
           \<and> spec_decode_payload L (emitted_encoding L qf enc)
                 (spec_reencode L (emitted_encoding L qf enc) (PSBT_serialize L (s_psbt s)))
               = Some (PSBT_serialize L (s_psbt s))
           \<and> (enc \<noteq> Enc_raw \<or> qf \<noteq> FORMAT_PMOFN L \<longrightarrow> emitted_encoding L qf enc = enc)"
proof -
  from init_Inr_fields[OF init]
  have p: "parse_psbt_data L qf data = Inr (s_psbt s, base_encoding s, ur_type s)"
    and q: "qr_format s = qf" by simp_all
  from parse_psbt_data_detect[OF p] obtain enc where
    d: "spec_detect L data = Some (enc, s_psbt s)"
    and ur: "ur_type s = (if enc = Enc_UR then Some CRYPTO_PSBT else None)"
    and be: "base_encoding s = (case emitted_encoding L qf enc of Enc_base n \<Rightarrow> Some n | _ \<Rightarrow> None)"
    and ns: "\<forall>n. emitted_encoding L qf enc = Enc_base n \<longrightarrow> n = 64 \<or> n = 58 \<or> n = 43"
    by blast
  have ur': "ur_type s = (if emitted_encoding L qf enc = Enc_UR then Some CRYPTO_PSBT else None)"
    using ur by (simp add: emitted_encoding_def)
  have qr: "psbt_qr L s
      = Inr (spec_reencode L (emitted_encoding L qf enc) (PSBT_serialize L (s_psbt s)), qf)"
    using psbt_qr_emitted[OF ur' be] q by simp
  have "\<forall>n. emitted_encoding L qf enc = Enc_base n \<longrightarrow>
          (\<forall>b. base_decode L (base_encode L b n) n = Some b)"
    using ns base by blast
  from decode_reencode[OF cbor this]
  have dec: "spec_decode_payload L (emitted_encoding L qf enc)
                 (spec_reencode L (emitted_encoding L qf enc) (PSBT_serialize L (s_psbt s)))
               = Some (PSBT_serialize L (s_psbt s))" .
  have same: "enc \<noteq> Enc_raw \<or> qf \<noteq> FORMAT_PMOFN L \<longrightarrow> emitted_encoding L qf enc = enc"
    by (auto simp: emitted_encoding_def)
  from d qr dec same show ?thesis by blast
qed

lemma parse_base_bytes:
  "parse_base L data n = Some p \<Longrightarrow>
   \<exists>d. base_decode L data n = Some d \<and> PSBT_parse L d = Some p"
  by (cases "base_decode L data n") (simp_all add: parse_base_def)

lemma cascade_bytes:
  assumes n: "PSBT_parse L d = None"
    and c: "(case parse_base L d 64 of
               Some p \<Rightarrow> Some (Enc_base 64, p)
             | None \<Rightarrow>
                 (case parse_base L d 58 of
                    Some p \<Rightarrow> Some (Enc_base 58, p)
                  | None \<Rightarrow> map_option (Pair (Enc_base 43)) (parse_base L d 43)))
             = Some (enc, p)"
  shows "\<exists>orig. (case parse_base L d 64 of
                    Some p \<Rightarrow> base_decode L d 64
                  | None \<Rightarrow>
                      (case parse_base L d 58 of
                         Some p \<Rightarrow> base_decode L d 58
                       | None \<Rightarrow>
                           (case parse_base L d 43 of
                              Some p \<Rightarrow> base_decode L d 43
                            | None \<Rightarrow> None))) = Some orig
                \<and> PSBT_parse L orig = Some p"
proof (cases "parse_base L d 64")
  case (Some a)
  with c have "a = p" by simp
  with Some parse_base_bytes[of L d 64 p] show ?thesis by simp
next
  case n64: None
  show ?thesis
  proof (cases "parse_base L d 58")
    case (Some a)
    with c n64 have "a = p" by simp
    with Some n64 parse_base_bytes[of L d 58 p] show ?thesis by simp
  next
    case n58: None
    show ?thesis
    proof (cases "parse_base L d 43")
      case (Some a)
      with c n64 n58 have "a = p" by simp
      with Some n64 n58 parse_base_bytes[of L d 43 p] show ?thesis by simp
    next
      case None
      with c n64 n58 show ?thesis by simp
    qed
  qed
qed

lemma spec_detect_bytes:
  assumes "spec_detect L data = Some (enc, p)"
  shows "\<exists>orig. spec_decoded_bytes L data = Some orig \<and> PSBT_parse L orig = Some p"
proof (cases data)
  case (UR ty cbor)
  with assms show ?thesis
    by (auto simp: spec_detect_def spec_decoded_bytes_def split: option.splits)
next
  case (Str str)
  show ?thesis
  proof (cases "PSBT_parse L (str_encode str)")
    case (Some p0)
    with assms Str show ?thesis by (simp add: spec_detect_def spec_decoded_bytes_def)
  next
    case None
    have c: "(case parse_base L (str_encode str) 64 of
               Some p \<Rightarrow> Some (Enc_base 64, p)
             | None \<Rightarrow>
                 (case parse_base L (str_encode str) 58 of
                    Some p \<Rightarrow> Some (Enc_base 58, p)
                  | None \<Rightarrow> map_option (Pair (Enc_base 43)) (parse_base L (str_encode str) 43)))
             = Some (enc, p)"
      using assms Str None by (simp add: spec_detect_def Let_def)
    from cascade_bytes[OF None c] show ?thesis
      using Str None by (simp add: spec_decoded_bytes_def Let_def)
  qed
next
  case (Bytes b)
  show ?thesis
  proof (cases "PSBT_parse L b")
    case (Some p0)
    with assms Bytes show ?thesis by (simp add: spec_detect_def spec_decoded_bytes_def)
  next
    case None
    have c: "(case parse_base L b 64 of
               Some p \<Rightarrow> Some (Enc_base 64, p)
             | None \<Rightarrow>
                 (case parse_base L b 58 of
                    Some p \<Rightarrow> Some (Enc_base 58, p)
                  | None \<Rightarrow> map_option (Pair (Enc_base 43)) (parse_base L b 43)))
             = Some (enc, p)"
      using assms Bytes None by (simp add: spec_detect_def Let_def)
    from cascade_bytes[OF None c] show ?thesis
      using Bytes None by (simp add: spec_decoded_bytes_def Let_def)
  qed
qed

text \<open>Claim C9, as amended. Let the CBOR wrapper and the base 64, 58 and 43 encoders
  round-trip, and let the serializer give back the bytes that the parser read. For every
  PSBT accepted at construction, by whichever of the five encodings, \<open>psbt_qr()\<close> called
  before \<open>sign()\<close> returns the requested QR format and a payload that is the original
  decoded transaction in the encoding detected at decode time, with the UR framing if
  that was the framing, except that a PSBT read as raw binary with the QR format
  \<open>FORMAT_PMOFN\<close> is returned in base 64; decoding the payload in the encoding it was
  emitted in yields bytes equal to the original decoded transaction, and these bytes
  parse to the PSBT of the signer.\<close>

theorem psbt_qr_roundtrip:
  assumes init: "PSBTSigner_init L wal data qf = Inr s"
    and cbor: "\<forall>b. from_cbor L (to_cbor L b) = Some b"
    and base: "\<forall>n b. n = 64 \<or> n = 58 \<or> n = 43 \<longrightarrow> base_decode L (base_encode L b n) n = Some b"
    and ser: "\<forall>b p. PSBT_parse L b = Some p \<longrightarrow> PSBT_serialize L p = b"
  shows "\<exists>enc orig payload.
           spec_detect L data = Some (enc, s_psbt s)
           \<and> spec_decoded_bytes L data = Some orig
           \<and> PSBT_parse L orig = Some (s_psbt s)
           \<and> psbt_qr L s = Inr (payload, qf)
           \<and> payload = spec_reencode L (emitted_encoding L qf enc) orig
           \<and> spec_decode_payload L (emitted_encoding L qf enc) payload = Some orig
           \<and> (enc \<noteq> Enc_raw \<or> qf \<noteq> FORMAT_PMOFN L \<longrightarrow> emitted_encoding L qf enc = enc)"
proof -
  from psbt_qr_reencodes[OF init cbor base] obtain enc where
    d: "spec_detect L data = Some (enc, s_psbt s)"
    and qr: "psbt_qr L s
        = Inr (spec_reencode L (emitted_encoding L qf enc) (PSBT_serialize L (s_psbt s)), qf)"
    and dec: "spec_decode_payload L (emitted_encoding L qf enc)
                 (spec_reencode L (emitted_encoding L qf enc) (PSBT_serialize L (s_psbt s)))
               = Some (PSBT_serialize L (s_psbt s))"
    and same: "enc \<noteq> Enc_raw \<or> qf \<noteq> FORMAT_PMOFN L \<longrightarrow> emitted_encoding L qf enc = enc"
    by blast
  from spec_detect_bytes[OF d] obtain orig where
    o: "spec_decoded_bytes L data = Some orig" and po: "PSBT_parse L orig = Some (s_psbt s)"
    by blast
  from ser po have so: "PSBT_serialize L (s_psbt s) = orig" by blast
  from d o po qr dec same show ?thesis unfolding so by blast
qed

lemma ex_parse_pmofn:
  "parse_psbt_data ex_lib ex_pmofn (Bytes (psbt_magic @ [0]))
     = Inr (ex_psbt_change_first, Some 64, None)"
  by (simp add: parse_psbt_data_def ex_lib_def ex_PSBT_parse_def psbt_magic_def ex_psbts_def)

lemma ex_signer_pmofn_init:
  "PSBTSigner_init ex_lib ex_wallet (Bytes (psbt_magic @ [0])) ex_pmofn
     = Inr (ex_signer\<lparr>base_encoding := Some 64, qr_format := ex_pmofn\<rparr>)"
proof -
  have x: "xpubs_of \<lparr>s_wallet = ex_wallet, base_encoding = Some 64, ur_type = None,
              qr_format = ex_pmofn, s_psbt = ex_psbt_change_first, s_policy = None\<rparr>
            = Inr [([0x09], \<lparr>fingerprint = [0xAA], derivation = [h84, h0, h0]\<rparr>)]"
    by (simp add: xpubs_of_def descriptor_keys_def ex_wallet_def ex_psbt_change_first_def)
  have pl: "policy_loop ex_lib [([0x09], \<lparr>fingerprint = [0xAA], derivation = [h84, h0, h0]\<rparr>)]
              (inputs ex_psbt_change_first) None = Inr (Some ex_single_policy)"
    by (simp add: ex_psbt_change_first_def input_policy_def get_policy_def ex_input_def
        ex_lib_def ex_script_type_def ex_single_policy_def)
  have w: "w_is_multisig ex_wallet = False" "w_is_loaded ex_wallet = False"
    by (simp_all add: ex_wallet_def)
  have ms: "is_multisig (Some ex_single_policy) = Inr False"
    by (simp add: is_multisig_def ex_single_policy_def)
  show ?thesis
    by (simp add: PSBTSigner_init_def ex_parse_pmofn x pl w ms ex_signer_def)
qed

lemma ex_serialize_first: "PSBT_serialize ex_lib ex_psbt_change_first = psbt_magic @ [0]"
  by (simp add: ex_lib_def ex_PSBT_serialize_def ex_psbts_def)

lemma ex_detect_raw:
  "spec_detect ex_lib (Bytes (psbt_magic @ [0])) = Some (Enc_raw, ex_psbt_change_first)"
  by (simp add: spec_detect_def ex_lib_def ex_PSBT_parse_def psbt_magic_def ex_psbts_def)

text \<open>Raw binary read with the QR format \<open>FORMAT_PMOFN\<close>: the detected encoding is raw
  binary, and the payload returned is a base 64 string, not the raw bytes.\<close>

theorem raw_pmofn_counterexample:
  "PSBTSigner_init ex_lib ex_wallet (Bytes (psbt_magic @ [0])) (FORMAT_PMOFN ex_lib)
     = Inr (ex_signer\<lparr>base_encoding := Some 64, qr_format := ex_pmofn\<rparr>)
   \<and> spec_detect ex_lib (Bytes (psbt_magic @ [0])) = Some (Enc_raw, ex_psbt_change_first)
   \<and> spec_reencode ex_lib Enc_raw (PSBT_serialize ex_lib ex_psbt_change_first)
       = Bytes (psbt_magic @ [0])
   \<and> psbt_qr ex_lib (ex_signer\<lparr>base_encoding := Some 64, qr_format := ex_pmofn\<rparr>)
       = Inr (Str (bytes_decode (64 # psbt_magic @ [0])), ex_pmofn)
   \<and> psbt_qr ex_lib (ex_signer\<lparr>base_encoding := Some 64, qr_format := ex_pmofn\<rparr>)
       \<noteq> Inr (spec_reencode ex_lib Enc_raw (PSBT_serialize ex_lib ex_psbt_change_first), ex_pmofn)"
proof -
  have f: "FORMAT_PMOFN ex_lib = ex_pmofn" by (simp add: ex_lib_def)
  have re: "spec_reencode ex_lib Enc_raw (PSBT_serialize ex_lib ex_psbt_change_first)
       = Bytes (psbt_magic @ [0])"
    by (simp add: spec_reencode_def ex_serialize_first)
  have s: "s_psbt (ex_signer\<lparr>base_encoding := Some 64, qr_format := ex_pmofn\<rparr>) = ex_psbt_change_first"
    by (simp add: ex_signer_def)
  have qr: "psbt_qr ex_lib (ex_signer\<lparr>base_encoding := Some 64, qr_format := ex_pmofn\<rparr>)
       = Inr (Str (bytes_decode (64 # psbt_magic @ [0])), ex_pmofn)"
    by (simp add: psbt_qr_def s ex_serialize_first) (simp add: ex_signer_def ex_lib_def)
  show ?thesis
    by (simp add: f ex_signer_pmofn_init ex_detect_raw re qr)
qed

lemma ex_psbts_distinct: "distinct ex_psbts"
  by (simp add: ex_psbts_def ex_psbt_change_first_def ex_psbt_spend_first_def
      ex_psbt_mixed_def ex_psbt_multi_def ex_spend_txout_def ex_change_txout_def)

lemma ex_codec_roundtrip:
  "\<forall>b p. PSBT_parse ex_lib b = Some p \<longrightarrow> PSBT_serialize ex_lib p = b"
proof (intro allI impI)
  fix b p assume "PSBT_parse ex_lib b = Some p"
  then have t: "take 5 b = psbt_magic" and l: "length b = 6"
    and k: "unat (b ! 5) < length ex_psbts" and p: "p = ex_psbts ! unat (b ! 5)"
    by (auto simp: ex_lib_def ex_PSBT_parse_def split: if_splits)
  from l have "length (drop 5 b) = 1" by simp
  then obtain x where x: "drop 5 b = [x]" by (cases "drop 5 b") auto
  have "drop 5 b ! 0 = b ! (5 + 0)" using l by (intro nth_drop) simp
  with x have "x = b ! 5" by simp
  with x have "drop 5 b = [b ! 5]" by simp
  moreover have "b = take 5 b @ drop 5 b" by simp
  ultimately have b: "b = psbt_magic @ [b ! 5]" using t by simp
  have "list_index ex_psbts p = Some (unat (b ! 5))"
    unfolding p by (rule list_index_nth[OF ex_psbts_distinct k])
  then have "PSBT_serialize ex_lib p = psbt_magic @ [b ! 5]"
    by (simp add: ex_lib_def ex_PSBT_serialize_def)
  with b show "PSBT_serialize ex_lib p = b" by simp
qed

lemma ex_decoded_raw:
  "spec_decoded_bytes ex_lib (Bytes (psbt_magic @ [0])) = Some (psbt_magic @ [0])"
  by (simp add: spec_decoded_bytes_def ex_lib_def ex_PSBT_parse_def psbt_magic_def ex_psbts_def)

theorem psbt_qr_roundtrip_witness:
  "spec_decoded_bytes ex_lib (Bytes (psbt_magic @ [0])) = Some (psbt_magic @ [0])
   \<and> psbt_qr ex_lib (ex_signer\<lparr>base_encoding := Some 64, qr_format := ex_pmofn\<rparr>)
     = Inr (spec_reencode ex_lib (Enc_base 64) (psbt_magic @ [0]), ex_pmofn)
   \<and> spec_decode_payload ex_lib (Enc_base 64) (spec_reencode ex_lib (Enc_base 64) (psbt_magic @ [0]))
     = Some (psbt_magic @ [0])
   \<and> psbt_qr ex_lib ex_signer = Inr (Bytes (psbt_magic @ [0]), 0)
   \<and> spec_decode_payload ex_lib Enc_raw (Bytes (psbt_magic @ [0])) = Some (psbt_magic @ [0])"
proof -
  have cbor: "\<forall>b. from_cbor ex_lib (to_cbor ex_lib b) = Some b"
    by (simp add: ex_lib_def ex_from_cbor_def)
  have base: "\<forall>n b. n = 64 \<or> n = 58 \<or> n = 43 \<longrightarrow>
                base_decode ex_lib (base_encode ex_lib b n) n = Some b"
    by (simp add: ex_lib_def ex_base_decode_def)
  have e1: "emitted_encoding ex_lib ex_pmofn Enc_raw = Enc_base 64"
    by (simp add: emitted_encoding_def ex_lib_def)
  have e0: "emitted_encoding ex_lib 0 Enc_raw = Enc_raw"
    by (simp add: emitted_encoding_def ex_lib_def ex_pmofn_def)
  from psbt_qr_roundtrip[OF ex_signer_pmofn_init cbor base ex_codec_roundtrip]
  obtain enc orig payload where
    a: "spec_detect ex_lib (Bytes (psbt_magic @ [0]))
          = Some (enc, s_psbt (ex_signer\<lparr>base_encoding := Some 64, qr_format := ex_pmofn\<rparr>))"
       "spec_decoded_bytes ex_lib (Bytes (psbt_magic @ [0])) = Some orig"
       "psbt_qr ex_lib (ex_signer\<lparr>base_encoding := Some 64, qr_format := ex_pmofn\<rparr>)
          = Inr (payload, ex_pmofn)"
       "payload = spec_reencode ex_lib (emitted_encoding ex_lib ex_pmofn enc) orig"
       "spec_decode_payload ex_lib (emitted_encoding ex_lib ex_pmofn enc) payload = Some orig"
    by blast
  from a(1) have enc: "enc = Enc_raw" by (simp add: ex_detect_raw)
  from a(2) have orig: "orig = psbt_magic @ [0]" by (simp add: ex_decoded_raw)
  from a(3,4) have r1: "psbt_qr ex_lib (ex_signer\<lparr>base_encoding := Some 64, qr_format := ex_pmofn\<rparr>)
     = Inr (spec_reencode ex_lib (Enc_base 64) (psbt_magic @ [0]), ex_pmofn)"
    by (simp add: enc orig e1)
  from a(4,5) have r2: "spec_decode_payload ex_lib (Enc_base 64)
        (spec_reencode ex_lib (Enc_base 64) (psbt_magic @ [0])) = Some (psbt_magic @ [0])"
    by (simp add: enc orig e1)
  from psbt_qr_roundtrip[OF ex_signer_init cbor base ex_codec_roundtrip]
  obtain enc' orig' payload' where
    b: "spec_detect ex_lib (Bytes (psbt_magic @ [0])) = Some (enc', s_psbt ex_signer)"
       "spec_decoded_bytes ex_lib (Bytes (psbt_magic @ [0])) = Some orig'"
       "psbt_qr ex_lib ex_signer = Inr (payload', 0)"
       "payload' = spec_reencode ex_lib (emitted_encoding ex_lib 0 enc') orig'"
       "spec_decode_payload ex_lib (emitted_encoding ex_lib 0 enc') payload' = Some orig'"
    by blast
  from b(1) have enc': "enc' = Enc_raw" by (simp add: ex_detect_raw)
  from b(2) have orig': "orig' = psbt_magic @ [0]" by (simp add: ex_decoded_raw)
  from b(4) have pl: "payload' = Bytes (psbt_magic @ [0])"
    by (simp add: enc' orig' e0 spec_reencode_def)
  from b(3) pl have r3: "psbt_qr ex_lib ex_signer = Inr (Bytes (psbt_magic @ [0]), 0)" by simp
  from b(5) have r4: "spec_decode_payload ex_lib Enc_raw (Bytes (psbt_magic @ [0]))
               = Some (psbt_magic @ [0])"
    by (simp add: enc' orig' e0 pl)
  from ex_decoded_raw r1 r2 r3 r4 show ?thesis by (intro conjI)
qed

subsection \<open>The fee\<close>

lemma bind_err_simps [simp]:
  "bind_err (Inr v) f = f v" "bind_err (Inl e) f = Inl e"
  by (simp_all add: bind_err_def)

lemma bind_err_Inr: "bind_err x f = Inr r \<longleftrightarrow> (\<exists>v. x = Inr v \<and> f v = Inr r)"
  by (cases x) simp_all

lemma inputs_amount_Inr:
  "inputs_amount ins acc = Inr r \<Longrightarrow>
   r = acc + sum_list (map utxo_value ins) \<and> (\<forall>i\<in>set ins. witness_utxo i \<noteq> None)"
proof (induction ins arbitrary: acc)
  case Nil
  then show ?case by simp
next
  case (Cons inp ins)
  from Cons.prems obtain u where u: "witness_utxo inp = Some u"
    by (cases "witness_utxo inp") auto
  with Cons.prems have "inputs_amount ins (acc + tx_value u) = Inr r" by simp
  from Cons.IH[OF this] u show ?case by (simp add: utxo_value_def)
qed

lemma classify_output_Inr:
  assumes "classify_output L s xpubs st i out = Inr st'"
  shows "i < length (vout (p_tx (s_psbt s)))
    \<and> classified_total st' = classified_total st + tx_value (vout (p_tx (s_psbt s)) ! i)
    \<and> classified_count st' = Suc (classified_count st)
    \<and> (amounts_match st \<longrightarrow> amounts_match st')"
proof -
  from assms have i: "i < length (vout (p_tx (s_psbt s)))"
    by (simp add: classify_output_def split: if_splits)
  let ?txo = "vout (p_tx (s_psbt s)) ! i"
  let ?entry = "(address L (script_pubkey ?txo), tx_value ?txo)"
  from assms i obtain sc1 where
    r: "st' = st\<lparr>sc_var := sc1, change_list := change_list st @ [?entry],
                  change_amount := change_amount st + tx_value ?txo\<rparr>
        \<or> st' = st\<lparr>sc_var := sc1, self_transfer_list := self_transfer_list st @ [?entry],
                  self_amount := self_amount st + tx_value ?txo\<rparr>
        \<or> st' = st\<lparr>sc_var := sc1, spend_list := spend_list st @ [?entry],
                  spend_amount := spend_amount st + tx_value ?txo\<rparr>"
    by (auto simp: classify_output_def Let_def bind_err_Inr split: if_splits option.splits)
  then show ?thesis
    using i by (auto simp: classified_total_def classified_count_def amounts_match_def)
qed

lemma outputs_loop_Inr:
  "outputs_loop L s xpubs (enumerate k outs) st = Inr st' \<Longrightarrow>
   k \<le> length (vout (p_tx (s_psbt s))) \<Longrightarrow>
   k + length outs \<le> length (vout (p_tx (s_psbt s)))
   \<and> classified_total st'
       = classified_total st
         + sum_list (map tx_value (take (length outs) (drop k (vout (p_tx (s_psbt s))))))
   \<and> classified_count st' = classified_count st + length outs
   \<and> (amounts_match st \<longrightarrow> amounts_match st')"
proof (induction outs arbitrary: k st)
  case Nil
  then show ?case by simp
next
  case (Cons out outs)
  from Cons.prems obtain st1 where
    c: "classify_output L s xpubs st k out = Inr st1"
    and l: "outputs_loop L s xpubs (enumerate (Suc k) outs) st1 = Inr st'"
    by (auto simp: bind_err_Inr)
  note c' = classify_output_Inr[OF c]
  let ?v = "vout (p_tx (s_psbt s))"
  from c' have k: "k < length ?v" by simp
  then have "Suc k \<le> length ?v" by simp
  note l' = Cons.IH[OF l this]
  have "take (length (out # outs)) (drop k ?v)
          = ?v ! k # take (length outs) (drop (Suc k) ?v)"
    using k by (simp add: Cons_nth_drop_Suc[symmetric])
  with c' l' show ?case by simp
qed


lemma classify_outputs_Inr:
  assumes "classify_outputs L s = Inr st"
  shows "length (outputs (s_psbt s)) \<le> length (vout (p_tx (s_psbt s)))
    \<and> classified_total st
        = sum_list (map tx_value (take (length (outputs (s_psbt s))) (vout (p_tx (s_psbt s)))))
    \<and> classified_count st = length (outputs (s_psbt s))
    \<and> amounts_match st"
proof -
  from assms obtain xpubs where
    "outputs_loop L s xpubs (enumerate 0 (outputs (s_psbt s))) initial_out_state = Inr st"
    by (auto simp: classify_outputs_def bind_err_Inr)
  from outputs_loop_Inr[OF this] show ?thesis
    by (simp add: classified_total_def classified_count_def amounts_match_def
        initial_out_state_def)
qed

lemma outputs_Inr:
  assumes "PSBTSigner_outputs L s = Inr msgs"
  shows "\<exists>inp_amount st fee_str pre rest.
           inputs_amount (inputs (s_psbt s)) 0 = Inr inp_amount
           \<and> classify_outputs L s = Inr st
           \<and> btc L (inp_amount - spend_amount st - self_amount st - change_amount st)
               = Inr fee_str
           \<and> msgs = (pre @ t_tr L ''Fee: '' @ fee_str) # rest"
proof -
  from assms obtain inp_amount a b st c d f m1 m2 m3 where
    "inputs_amount (inputs (s_psbt s)) 0 = Inr inp_amount"
    "classify_outputs L s = Inr st"
    "btc L (inp_amount - spend_amount st - self_amount st - change_amount st) = Inr f"
    "msgs = (a @ b @ nl2 @ c @ d @ t_tr L ''Fee: '' @ f) # m1 @ m2 @ m3"
    unfolding PSBTSigner_outputs_def bind_err_Inr by blast
  then have "inputs_amount (inputs (s_psbt s)) 0 = Inr inp_amount
           \<and> classify_outputs L s = Inr st
           \<and> btc L (inp_amount - spend_amount st - self_amount st - change_amount st) = Inr f
           \<and> msgs = ((a @ b @ nl2 @ c @ d) @ t_tr L ''Fee: '' @ f) # (m1 @ m2 @ m3)"
    by simp
  then show ?thesis by blast
qed


text \<open>Claim C6. Whenever \<open>outputs()\<close> returns, the summary message ends with the fee,
  and the fee is the sum of the inputs' witness-UTXO values minus the spend total minus
  the self-transfer total minus the change total, each total being the sum of the
  amounts listed in its class; every output scope was put into one of the three classes;
  and when the PSBT has one output scope per transaction output, the fee equals the sum
  of the input values minus the sum of all output values.\<close>

theorem outputs_fee:
  assumes "PSBTSigner_outputs L s = Inr msgs"
  shows "\<exists>inp_amount st fee fee_str pre rest.
           inputs_amount (inputs (s_psbt s)) 0 = Inr inp_amount
           \<and> inp_amount = sum_list (map utxo_value (inputs (s_psbt s)))
           \<and> (\<forall>inp\<in>set (inputs (s_psbt s)). witness_utxo inp \<noteq> None)
           \<and> classify_outputs L s = Inr st
           \<and> spend_amount st = sum_list (map snd (spend_list st))
           \<and> self_amount st = sum_list (map snd (self_transfer_list st))
           \<and> change_amount st = sum_list (map snd (change_list st))
           \<and> classified_count st = length (outputs (s_psbt s))
           \<and> fee = inp_amount - spend_amount st - self_amount st - change_amount st
           \<and> btc L fee = Inr fee_str
           \<and> msgs = (pre @ t_tr L ''Fee: '' @ fee_str) # rest
           \<and> (length (outputs (s_psbt s)) = length (vout (p_tx (s_psbt s))) \<longrightarrow>
                fee = sum_list (map utxo_value (inputs (s_psbt s)))
                      - sum_list (map tx_value (vout (p_tx (s_psbt s)))))"
proof -
  from outputs_Inr[OF assms] obtain inp_amount st fee_str pre rest where
    ia: "inputs_amount (inputs (s_psbt s)) 0 = Inr inp_amount"
    and co: "classify_outputs L s = Inr st"
    and fs: "btc L (inp_amount - spend_amount st - self_amount st - change_amount st)
               = Inr fee_str"
    and ms: "msgs = (pre @ t_tr L ''Fee: '' @ fee_str) # rest"
    by blast
  from inputs_amount_Inr[OF ia]
  have sum: "inp_amount = sum_list (map utxo_value (inputs (s_psbt s)))"
    and utxo: "\<forall>inp\<in>set (inputs (s_psbt s)). witness_utxo inp \<noteq> None"
    by simp_all
  from classify_outputs_Inr[OF co]
  have tot: "classified_total st
        = sum_list (map tx_value (take (length (outputs (s_psbt s))) (vout (p_tx (s_psbt s)))))"
    and cnt: "classified_count st = length (outputs (s_psbt s))"
    and am: "amounts_match st"
    by simp_all
  have bal: "inp_amount - spend_amount st - self_amount st - change_amount st
                = sum_list (map utxo_value (inputs (s_psbt s)))
                  - sum_list (map tx_value (vout (p_tx (s_psbt s))))"
    if "length (outputs (s_psbt s)) = length (vout (p_tx (s_psbt s)))"
    using tot that sum by (simp add: classified_total_def)
  from ia sum utxo co am cnt fs ms bal show ?thesis
    unfolding amounts_match_def by blast
qed

lemma ex_xpubs: "xpubs_of ex_signer = Inr [([0x09], \<lparr>fingerprint = [0xAA], derivation = [h84, h0, h0]\<rparr>)]"
  by (simp add: xpubs_of_def descriptor_keys_def ex_signer_def ex_wallet_def ex_psbt_change_first_def)

lemma ex_classified: "classify_outputs ex_lib ex_signer =
   Inr \<lparr>sc_var = Some [0x14, 0x5C], self_transfer_list = [],
        change_list = [(''address'', 39000)], spend_list = [(''address'', 60000)],
        self_amount = 0, change_amount = 39000, spend_amount = 60000\<rparr>"
  apply (simp add: classify_outputs_def ex_xpubs)
  apply (simp add: ex_signer_def ex_psbt_change_first_def classify_output_def
     get_policy_def rebuild_script_def is_change_def initial_out_state_def
     ex_lib_def ex_script_type_def ex_derive_def ex_change_out_def ex_change_txout_def ex_spend_txout_def
     empty_scope_def ex_single_policy_def ex_wallet_def h84_def h0_def Let_def)
  done

lemma ex_btc: "btc ex_lib a = Inr ([CHR 0xE2, CHR 0x82, CHR 0xBF] @ fmt_d (nat a))"
  by (simp add: btc_def btc_fmt_def ex_lib_def)

lemma ex_outputs_return: "\<exists>msgs. PSBTSigner_outputs ex_lib ex_signer = Inr msgs"
proof -
  have t: "t_tr ex_lib = (\<lambda>s. s)" by (simp add: ex_lib_def)
  have ia: "inputs_amount (inputs (s_psbt ex_signer)) 0 = Inr 100000"
    by (simp add: ex_signer_def ex_psbt_change_first_def ex_input_def)
  show ?thesis
    by (simp add: PSBTSigner_outputs_def ia ex_classified ex_btc t nl2_def)
qed

theorem outputs_fee_witness:
  "\<exists>msgs pre rest. PSBTSigner_outputs ex_lib ex_signer = Inr msgs
      \<and> msgs = (pre @ ''Fee: '' @ [CHR 0xE2, CHR 0x82, CHR 0xBF] @ fmt_d 1000) # rest"
proof -
  from ex_outputs_return obtain msgs where m: "PSBTSigner_outputs ex_lib ex_signer = Inr msgs"
    by blast
  have len: "length (outputs (s_psbt ex_signer)) = length (vout (p_tx (s_psbt ex_signer)))"
    by (simp add: ex_signer_def ex_psbt_change_first_def)
  have bal: "sum_list (map utxo_value (inputs (s_psbt ex_signer)))
               - sum_list (map tx_value (vout (p_tx (s_psbt ex_signer)))) = 1000"
    by (simp add: ex_signer_def ex_psbt_change_first_def ex_input_def utxo_value_def
        ex_change_txout_def ex_spend_txout_def)
  from outputs_fee[OF m] len bal obtain fee_str pre rest where
    f: "btc ex_lib 1000 = Inr fee_str" and r: "msgs = (pre @ t_tr ex_lib ''Fee: '' @ fee_str) # rest"
    by auto
  from f have "fee_str = [CHR 0xE2, CHR 0x82, CHR 0xBF] @ fmt_d 1000" by (simp add: ex_btc)
  moreover have "t_tr ex_lib ''Fee: '' = ''Fee: ''" by (simp add: ex_lib_def)
  ultimately have "msgs = (pre @ ''Fee: '' @ [CHR 0xE2, CHR 0x82, CHR 0xBF] @ fmt_d 1000) # rest"
    using r by simp
  with m show ?thesis by blast
qed

subsection \<open>Classification of the outputs\<close>

lemma classify_output_unbound:
  assumes i: "i < length (vout (p_tx (s_psbt s)))"
    and pol: "get_policy L out (script_pubkey (vout (p_tx (s_psbt s)) ! i)) xpubs = Inr pol"
    and ne: "Some pol \<noteq> s_policy s"
    and un: "sc_var st = None"
  shows "classify_output L s xpubs st i out = Inl UnboundLocalError"
  using assms by (simp add: classify_output_def Let_def)

text \<open>A later output of another policy is compared with the script that an earlier round
  left in \<^verbatim>\<open>sc\<close>: when the two are equal it is listed as a self-transfer.\<close>

lemma classify_output_stale:
  assumes i: "i < length (vout (p_tx (s_psbt s)))"
    and pol: "get_policy L out (script_pubkey (vout (p_tx (s_psbt s)) ! i)) xpubs = Inr pol"
    and ne: "Some pol \<noteq> s_policy s"
    and stale: "sc_var st = Some (script_pubkey (vout (p_tx (s_psbt s)) ! i))"
    and nod: "bip32_derivations out = []"
  shows "classify_output L s xpubs st i out =
     Inr (st\<lparr>sc_var := sc_var st,
             self_transfer_list := self_transfer_list st
               @ [(address L (script_pubkey (vout (p_tx (s_psbt s)) ! i)),
                   tx_value (vout (p_tx (s_psbt s)) ! i))],
             self_amount := self_amount st + tx_value (vout (p_tx (s_psbt s)) ! i)\<rparr>)"
  using assms by (simp add: classify_output_def Let_def is_change_def)

text \<open>Claim C1 says that an output whose policy differs from the shared input policy is
  listed as a spend, without an exception. The code reads \<^verbatim>\<open>sc\<close> outside the branch
  that assigns it: when the first output of the PSBT has a policy other than the shared
  one, the classification ends with \<open>UnboundLocalError\<close> and \<open>outputs()\<close> returns no
  messages.\<close>

theorem first_output_other_policy_raises:
  assumes x: "xpubs_of s = Inr xpubs"
    and o: "outputs (s_psbt s) = out # rest"
    and v: "vout (p_tx (s_psbt s)) = txo # vrest"
    and pol: "get_policy L out (script_pubkey txo) xpubs = Inr pol"
    and ne: "Some pol \<noteq> s_policy s"
  shows "classify_outputs L s = Inl UnboundLocalError
         \<and> (\<forall>msgs. PSBTSigner_outputs L s \<noteq> Inr msgs)"
proof -
  have i: "0 < length (vout (p_tx (s_psbt s)))" and t: "vout (p_tx (s_psbt s)) ! 0 = txo"
    using v by simp_all
  have "classify_output L s xpubs initial_out_state 0 out = Inl UnboundLocalError"
    by (rule classify_output_unbound[OF i pol[folded t] ne])
       (simp add: initial_out_state_def)
  then have c: "classify_outputs L s = Inl UnboundLocalError"
    by (simp add: classify_outputs_def x o)
  have "PSBTSigner_outputs L s \<noteq> Inr msgs" for msgs
  proof
    assume "PSBTSigner_outputs L s = Inr msgs"
    from outputs_Inr[OF this] c show False by auto
  qed
  with c show ?thesis by blast
qed

lemma ex_signer_spend_first_init:
  "PSBTSigner_init ex_lib ex_wallet (Bytes (psbt_magic @ [1])) 0
     = Inr (ex_signer\<lparr>s_psbt := ex_psbt_spend_first\<rparr>)"
proof -
  have x: "xpubs_of \<lparr>s_wallet = ex_wallet, base_encoding = None, ur_type = None,
              qr_format = 0, s_psbt = ex_psbt_spend_first, s_policy = None\<rparr>
            = Inr [([0x09], \<lparr>fingerprint = [0xAA], derivation = [h84, h0, h0]\<rparr>)]"
    by (simp add: xpubs_of_def descriptor_keys_def ex_wallet_def ex_psbt_spend_first_def)
  have pl: "policy_loop ex_lib [([0x09], \<lparr>fingerprint = [0xAA], derivation = [h84, h0, h0]\<rparr>)]
              (inputs ex_psbt_spend_first) None = Inr (Some ex_single_policy)"
    by (simp add: ex_psbt_spend_first_def input_policy_def get_policy_def ex_input_def
        ex_lib_def ex_script_type_def ex_single_policy_def)
  have w: "w_is_multisig ex_wallet = False" "w_is_loaded ex_wallet = False"
    by (simp_all add: ex_wallet_def)
  have ms: "is_multisig (Some ex_single_policy) = Inr False"
    by (simp add: is_multisig_def ex_single_policy_def)
  show ?thesis
    by (simp add: PSBTSigner_init_def ex_parse(2) x pl w ms ex_signer_def)
qed

theorem first_output_other_policy_raises_witness:
  "PSBTSigner_init ex_lib ex_wallet (Bytes (psbt_magic @ [1])) 0
     = Inr (ex_signer\<lparr>s_psbt := ex_psbt_spend_first\<rparr>)
   \<and> classify_outputs ex_lib (ex_signer\<lparr>s_psbt := ex_psbt_spend_first\<rparr>)
     = Inl UnboundLocalError
   \<and> PSBTSigner_outputs ex_lib (ex_signer\<lparr>s_psbt := ex_psbt_spend_first\<rparr>)
     = Inl UnboundLocalError"
proof -
  let ?s = "ex_signer\<lparr>s_psbt := ex_psbt_spend_first\<rparr>"
  let ?x = "[([0x09], \<lparr>fingerprint = [0xAA], derivation = [h84, h0, h0]\<rparr>)]
             :: (hdkey \<times> derivation_path) list"
  have x: "xpubs_of ?s = Inr ?x"
    by (simp add: xpubs_of_def descriptor_keys_def ex_signer_def ex_wallet_def
        ex_psbt_spend_first_def)
  have o: "outputs (s_psbt ?s) = empty_scope # [ex_change_out]"
    and v: "vout (p_tx (s_psbt ?s)) = ex_spend_txout # [ex_change_txout]"
    by (simp_all add: ex_psbt_spend_first_def)
  have pol: "get_policy ex_lib empty_scope (script_pubkey ex_spend_txout) ?x
               = Inr \<lparr>ptype = ''p2pkh'', multi = None\<rparr>"
    by (simp add: get_policy_def ex_lib_def ex_script_type_def ex_spend_txout_def
        empty_scope_def)
  have ne: "Some \<lparr>ptype = ''p2pkh'', multi = None\<rparr> \<noteq> s_policy ?s"
    by (simp add: ex_signer_def ex_single_policy_def)
  from first_output_other_policy_raises[OF x o v pol ne]
  have c: "classify_outputs ex_lib ?s = Inl UnboundLocalError" by blast
  have ia: "inputs_amount (inputs ex_psbt_spend_first) 0 = Inr 100000"
    by (simp add: ex_psbt_spend_first_def ex_input_def)
  have t: "t_tr ex_lib = (\<lambda>s. s)" by (simp add: ex_lib_def)
  have "PSBTSigner_outputs ex_lib ?s = Inl UnboundLocalError"
    by (simp add: PSBTSigner_outputs_def ia c ex_btc t)
  with ex_signer_spend_first_init c show ?thesis by (intro conjI)
qed

text \<open>Claim C3 says that a wallet-owned output is listed as change exactly when the change
  index of its derivation path is 1, for single signature and multisig policies alike.
  The code tests position 3 of the path. On a change path of the module's own default
  multisig account, \<open>m/48h/ch/ah/2h/1/i\<close>, position 3 holds \<open>2h\<close> and the change index
  sits at position 4: the output is wallet-owned, its change index is 1, and it is
  listed as a self-transfer.\<close>

theorem multisig_change_listed_as_self_transfer:
  assumes i: "i < length (vout (p_tx (s_psbt s)))"
    and pol: "get_policy L out (script_pubkey (vout (p_tx (s_psbt s)) ! i)) xpubs = Inr pol"
    and eq: "Some pol = s_policy s"
    and own: "rebuild_script L s pol out = Inr (script_pubkey (vout (p_tx (s_psbt s)) ! i))"
    and der: "bip32_derivations out = (pk, d) # rest"
    and path: "derivation d = [h48, c, a, h2, 1, idx]"
  shows "spec_change_index (derivation d) = 1
    \<and> is_change out = Inr False
    \<and> classify_output L s xpubs st i out =
        Inr (st\<lparr>sc_var := Some (script_pubkey (vout (p_tx (s_psbt s)) ! i)),
                self_transfer_list := self_transfer_list st
                  @ [(address L (script_pubkey (vout (p_tx (s_psbt s)) ! i)),
                      tx_value (vout (p_tx (s_psbt s)) ! i))],
                self_amount := self_amount st + tx_value (vout (p_tx (s_psbt s)) ! i)\<rparr>)"
proof -
  have sci: "spec_change_index (derivation d) = 1"
    by (simp add: path spec_change_index_def last2_def)
  have ic: "is_change out = Inr False"
    by (simp add: is_change_def der path h2_def)
  have "classify_output L s xpubs st i out =
        Inr (st\<lparr>sc_var := Some (script_pubkey (vout (p_tx (s_psbt s)) ! i)),
                self_transfer_list := self_transfer_list st
                  @ [(address L (script_pubkey (vout (p_tx (s_psbt s)) ! i)),
                      tx_value (vout (p_tx (s_psbt s)) ! i))],
                self_amount := self_amount st + tx_value (vout (p_tx (s_psbt s)) ! i)\<rparr>)"
    using i pol eq own ic by (simp add: classify_output_def Let_def)
  with sci ic show ?thesis by (intro conjI)
qed

lemma ex_multi_xpubs:
  "xpubs_of \<lparr>s_wallet = ex_multi_wallet, base_encoding = be, ur_type = ur, qr_format = qf,
             s_psbt = ex_psbt_multi, s_policy = pol\<rparr>
     = Inr [([0x10], ex_origin_A), ([0x20], ex_origin_B)]"
  by (simp add: xpubs_of_def descriptor_keys_def ex_multi_wallet_def ex_psbt_multi_def
      ex_origin_A_def ex_origin_B_def)

lemma ex_multi_cosigners:
  "get_cosigners ex_lib [[0x10 + of_nat (c + i)], [0x20 + of_nat (c + i)]] (ex_multi_derivs c i)
     [([0x10], ex_origin_A), ([0x20], ex_origin_B)] = Inr [''xpubA'', ''xpubB'']"
  by (simp add: get_cosigners_def ex_multi_derivs_def ex_origin_A_def ex_origin_B_def
      all_but_last2_def last2_def ex_lib_def ex_derive_def ex_to_base58_def)

lemma ex_multi_input_policy:
  "input_policy ex_lib [([0x10], ex_origin_A), ([0x20], ex_origin_B)] ex_multi_input
     = Inr ex_multi_policy"
proof -
  have pm: "parse_multisig ex_lib [2, 0x13, 0x23] = Inr (2, [[0x13], [0x23]])"
    by (simp add: ex_lib_def ex_parse_multisig_def)
  have st: "script_type ex_lib [0x20, 2, 0x13, 0x23] = Some ''p2wsh''"
    by (simp add: ex_lib_def ex_script_type_def)
  have d: "bip32_derivations ex_multi_input = ex_multi_derivs 0 3"
    "witness_script ex_multi_input = Some [2, 0x13, 0x23]"
    "witness_utxo ex_multi_input = Some \<lparr>tx_value = 50000, script_pubkey = [0x20, 2, 0x13, 0x23]\<rparr>"
    by (simp_all add: ex_multi_input_def)
  from ex_multi_cosigners[of 0 3]
  have cs: "get_cosigners ex_lib [[0x13], [0x23]] (ex_multi_derivs 0 3)
     [([0x10], ex_origin_A), ([0x20], ex_origin_B)] = Inr [''xpubA'', ''xpubB'']" by simp
  show ?thesis
    by (simp add: input_policy_def get_policy_def d st pm cs ex_multi_policy_def)
qed

lemma ex_multi_signer_init:
  "PSBTSigner_init ex_lib ex_multi_wallet (Bytes (psbt_magic @ [3])) 0 = Inr ex_multi_signer"
proof -
  have pl: "policy_loop ex_lib [([0x10], ex_origin_A), ([0x20], ex_origin_B)]
              (inputs ex_psbt_multi) None = Inr (Some ex_multi_policy)"
    by (simp add: ex_psbt_multi_def ex_multi_input_policy)
  have w: "w_is_multisig ex_multi_wallet = True" "w_is_loaded ex_multi_wallet = True"
    "w_policy ex_multi_wallet = Some ex_multi_policy"
    by (simp_all add: ex_multi_wallet_def)
  have ms: "is_multisig (Some ex_multi_policy) = Inr True"
    by (simp add: is_multisig_def ex_multi_policy_def)
  show ?thesis
    by (simp add: PSBTSigner_init_def ex_parse(4) ex_multi_xpubs pl w ms ex_multi_signer_def)
qed

theorem multisig_change_listed_as_self_transfer_witness:
  "PSBTSigner_init ex_lib ex_multi_wallet (Bytes (psbt_magic @ [3])) 0 = Inr ex_multi_signer
   \<and> spec_change_index [h48, h1, h0, h2, 1, 0] = 1
   \<and> classify_outputs ex_lib ex_multi_signer =
       Inr \<lparr>sc_var = Some [0x20, 2, 0x11, 0x21],
            self_transfer_list = [(''address'', 49000)], change_list = [], spend_list = [],
            self_amount = 49000, change_amount = 0, spend_amount = 0\<rparr>"
proof -
  let ?x = "[([0x10], ex_origin_A), ([0x20], ex_origin_B)] :: (hdkey \<times> derivation_path) list"
  let ?txo = "\<lparr>tx_value = 49000, script_pubkey = [0x20, 2, 0x11, 0x21]\<rparr>"
  have v: "vout (p_tx (s_psbt ex_multi_signer)) = [?txo]"
    and o: "outputs (s_psbt ex_multi_signer) = [ex_multi_change_out]"
    by (simp_all add: ex_multi_signer_def ex_psbt_multi_def)
  have i: "0 < length (vout (p_tx (s_psbt ex_multi_signer)))" by (simp add: v)
  have pm: "parse_multisig ex_lib [2, 0x11, 0x21] = Inr (2, [[0x11], [0x21]])"
    by (simp add: ex_lib_def ex_parse_multisig_def)
  have st: "script_type ex_lib [0x20, 2, 0x11, 0x21] = Some ''p2wsh''"
    by (simp add: ex_lib_def ex_script_type_def)
  have d: "bip32_derivations ex_multi_change_out = ex_multi_derivs 1 0"
    "witness_script ex_multi_change_out = Some [2, 0x11, 0x21]"
    "redeem_script ex_multi_change_out = None"
    by (simp_all add: ex_multi_change_out_def empty_scope_def)
  from ex_multi_cosigners[of "Suc 0" 0]
  have cs: "get_cosigners ex_lib [[0x11], [0x21]] (ex_multi_derivs (Suc 0) 0) ?x
              = Inr [''xpubA'', ''xpubB'']" by simp
  have pol: "get_policy ex_lib ex_multi_change_out
               (script_pubkey (vout (p_tx (s_psbt ex_multi_signer)) ! 0)) ?x = Inr ex_multi_policy"
    by (simp add: v get_policy_def d st pm cs ex_multi_policy_def)
  have eq: "Some ex_multi_policy = s_policy ex_multi_signer"
    by (simp add: ex_multi_signer_def)
  have own: "rebuild_script ex_lib ex_multi_signer ex_multi_policy ex_multi_change_out
               = Inr (script_pubkey (vout (p_tx (s_psbt ex_multi_signer)) ! 0))"
    by (simp add: v rebuild_script_def ex_multi_policy_def d) (simp add: ex_lib_def)
  have der: "bip32_derivations ex_multi_change_out
      = ([0x11], ex_origin_A\<lparr>derivation := [h48, h1, h0, h2, 1, 0]\<rparr>)
        # [([0x21], ex_origin_B\<lparr>derivation := [h48, h1, h0, h2, 1, 0]\<rparr>)]"
    by (simp add: d ex_multi_derivs_def)
  have path: "derivation (ex_origin_A\<lparr>derivation := [h48, h1, h0, h2, 1, 0]\<rparr>)
                = [h48, h1, h0, h2, 1, 0]" by simp
  note t = multisig_change_listed_as_self_transfer[OF i pol eq own der path,
      where st = initial_out_state]
  from t have r1: "spec_change_index [h48, h1, h0, h2, 1, 0] = 1" by simp
  from t have c: "classify_output ex_lib ex_multi_signer ?x initial_out_state 0 ex_multi_change_out
      = Inr \<lparr>sc_var = Some [0x20, 2, 0x11, 0x21],
            self_transfer_list = [(''address'', 49000)], change_list = [], spend_list = [],
            self_amount = 49000, change_amount = 0, spend_amount = 0\<rparr>"
    by (simp add: v initial_out_state_def) (simp add: ex_lib_def)
  have x: "xpubs_of ex_multi_signer = Inr ?x"
    unfolding ex_multi_signer_def by (rule ex_multi_xpubs)
  have r2: "classify_outputs ex_lib ex_multi_signer =
       Inr \<lparr>sc_var = Some [0x20, 2, 0x11, 0x21],
            self_transfer_list = [(''address'', 49000)], change_list = [], spend_list = [],
            self_amount = 49000, change_amount = 0, spend_amount = 0\<rparr>"
    by (simp add: classify_outputs_def x o c)
  from ex_multi_signer_init r1 r2 show ?thesis by (intro conjI)
qed

end
